theory Spec2Isabelle
  imports Complex_Main
begin

section \<open>Gaussian-process regression engine\<close>

text \<open>
  A shallow embedding of \<^verbatim>\<open>lib/GaussianProcess.cpp\<close>, \<^verbatim>\<open>include/GaussianProcess.h\<close> and
  \<^verbatim>\<open>include/KernelFactory.h\<close>.

  \<^item> The scalar type \<^verbatim>\<open>TScalarType\<close> (float or double) is the type of real numbers:
    rounding is not modelled.
  \<^item> Sizes and indices (\<^verbatim>\<open>unsigned\<close>, \<^verbatim>\<open>size_t\<close>, Eigen indices) are natural numbers;
    the model is exact for vector lengths and sample counts below \<open>2^32\<close>, where the
    conversions between these types are the identity.
  \<^item> A method of the engine is a function from the engine state to an outcome and the
    state the call leaves behind, also when it throws: \<^verbatim>\<open>throw std::string(...)\<close>
    is the outcome \<open>Inl e\<close>, the message classified by the \<open>error\<close> type.
  \<^item> Output to \<^verbatim>\<open>std::cout\<close> (the \<^verbatim>\<open>debug\<close> diagnostics) is not modelled.
  \<^item> The \<^verbatim>\<open>omp parallel for\<close> loops write disjoint cells and are modelled sequentially.
\<close>

subsection \<open>Errors\<close>

datatype error =
    DimensionMismatch      \<comment> \<open>\<^verbatim>\<open>CheckInputDimension\<close>, \<^verbatim>\<open>CheckOutputDimension\<close>\<close>
  | UntrainedState         \<comment> \<open>no samples, no labels, or "gaussian process is not initialized"\<close>
  | FileNotFound           \<comment> \<open>"does not exist or is a directory"\<close>
  | CorruptParameterFile   \<comment> \<open>"parameter file is corrupt"\<close>
  | UnknownKernelType      \<comment> \<open>"kernel not recognized"\<close>
  | TokenizeFailure        \<comment> \<open>"failed to tokanize kernel name string"\<close>
  | KernelLoadFailure      \<comment> \<open>an exception of a kernel class's own \<^verbatim>\<open>Load\<close>\<close>
  | UndefinedBehaviour     \<comment> \<open>dereferencing \<^verbatim>\<open>end()\<close> or a null pointer, an index out of
                               range, a violated size precondition of Eigen\<close>

subsection \<open>Vectors and matrices (Eigen)\<close>

type_synonym VectorType = "real list"

text \<open>A dense matrix: its two dimensions and its rows.\<close>

datatype MatrixType = Matrix (nrows: nat) (ncols: nat) (entries: "real list list")

definition wf_matrix :: "MatrixType \<Rightarrow> bool" where
  "wf_matrix M \<longleftrightarrow>
     length (entries M) = nrows M \<and> (\<forall>r \<in> set (entries M). length r = ncols M)"

definition coeff :: "MatrixType \<Rightarrow> nat \<Rightarrow> nat \<Rightarrow> real" where
  "coeff M i j = entries M ! i ! j"

definition set_coeff :: "MatrixType \<Rightarrow> nat \<Rightarrow> nat \<Rightarrow> real \<Rightarrow> MatrixType" where
  "set_coeff M i j v = Matrix (nrows M) (ncols M) ((entries M)[i := (entries M ! i)[j := v]])"

text \<open>\<^verbatim>\<open>M.resize(r, c)\<close>: the cells are uninitialised in Eigen and zero here; every
  caller overwrites all of them.\<close>

definition resized :: "nat \<Rightarrow> nat \<Rightarrow> MatrixType" where
  "resized r c = Matrix r c (replicate r (replicate c 0))"

definition col :: "MatrixType \<Rightarrow> nat \<Rightarrow> VectorType" where
  "col M j = map (\<lambda>r. r ! j) (entries M)"

definition transpose_matrix :: "MatrixType \<Rightarrow> MatrixType" where
  "transpose_matrix M = Matrix (ncols M) (nrows M) (map (col M) [0..<ncols M])"

definition dot :: "VectorType \<Rightarrow> VectorType \<Rightarrow> real" where
  "dot u v = sum_list (map2 (*) u v)"

text \<open>The product \<^verbatim>\<open>A * B\<close>; Eigen requires \<open>A.cols() == B.rows()\<close>.\<close>

definition mat_mul :: "MatrixType \<Rightarrow> MatrixType \<Rightarrow> error + MatrixType" where
  "mat_mul A B =
     (if ncols A \<noteq> nrows B then Inl UndefinedBehaviour
      else Inr (Matrix (nrows A) (ncols B)
                 (map (\<lambda>r. map (\<lambda>j. dot r (col B j)) [0..<ncols B]) (entries A))))"

text \<open>\<^verbatim>\<open>A * v\<close> for a column vector \<open>v\<close>.\<close>

definition mat_vec :: "MatrixType \<Rightarrow> VectorType \<Rightarrow> error + VectorType" where
  "mat_vec A v =
     (if ncols A \<noteq> length v then Inl UndefinedBehaviour
      else Inr (map (\<lambda>r. dot r v) (entries A)))"

text \<open>\<^verbatim>\<open>(v.adjoint() * A).adjoint()\<close> for a column vector \<open>v\<close>.\<close>

definition vec_mat :: "VectorType \<Rightarrow> MatrixType \<Rightarrow> error + VectorType" where
  "vec_mat v A =
     (if length v \<noteq> nrows A then Inl UndefinedBehaviour
      else Inr (map (\<lambda>j. dot v (col A j)) [0..<ncols A]))"

definition asDiagonal :: "VectorType \<Rightarrow> MatrixType" where
  "asDiagonal v =
     Matrix (length v) (length v)
       (map (\<lambda>i. map (\<lambda>j. if i = j then v ! i else 0) [0..<length v]) [0..<length v])"

text \<open>\<^verbatim>\<open>(A - B).norm() > 0\<close>, the test of \<^verbatim>\<open>operator==\<close>; the difference requires equal
  dimensions.\<close>

definition sq_norm_rows :: "real list list \<Rightarrow> real" where
  "sq_norm_rows rs = sum_list (map (\<lambda>r. sum_list (map (\<lambda>x. x * x) r)) rs)"

definition diff_norm_positive :: "MatrixType \<Rightarrow> MatrixType \<Rightarrow> error + bool" where
  "diff_norm_positive A B =
     (if nrows A \<noteq> nrows B \<or> ncols A \<noteq> ncols B then Inl UndefinedBehaviour
      else Inr (sqrt (sq_norm_rows (map2 (map2 (-)) (entries A) (entries B))) > 0))"

definition vec_diff_norm_positive :: "VectorType \<Rightarrow> VectorType \<Rightarrow> error + bool" where
  "vec_diff_norm_positive u v =
     (if length u \<noteq> length v then Inl UndefinedBehaviour
      else Inr (sqrt (sum_list (map (\<lambda>x. x * x) (map2 (-) u v))) > 0))"

subsection \<open>The kernel capability (\<^verbatim>\<open>Kernel.h\<close>) and the numeric library\<close>

text \<open>
  \<^verbatim>\<open>Kernel.h\<close> is not among the sources. A kernel object is a value of a type \<open>'k\<close>, and
  what the engine and the factory use of the kernel classes is a parameter:
  the call operator, \<^verbatim>\<open>GetParameters\<close>, \<^verbatim>\<open>ToString\<close>, \<^verbatim>\<open>operator!=\<close>, the static
  \<^verbatim>\<open>Load\<close> of each registered class, and the dynamic class tests behind
  \<^verbatim>\<open>std::dynamic_pointer_cast\<close>.
\<close>

record 'k KernelAPI =
  evaluate :: "'k \<Rightarrow> VectorType \<Rightarrow> VectorType \<Rightarrow> real"
  GetParameters :: "'k \<Rightarrow> real list"
  ToString :: "'k \<Rightarrow> string"
  kernel_differs :: "'k \<Rightarrow> 'k \<Rightarrow> bool"
  GaussianKernel_Load :: "real list \<Rightarrow> error + 'k"
  PeriodicKernel_Load :: "real list \<Rightarrow> error + 'k"
  SumKernel_Load :: "real list \<Rightarrow> error + 'k"
  ProductKernel_Load :: "real list \<Rightarrow> error + 'k"
  is_GaussianKernel :: "'k \<Rightarrow> bool"
  is_PeriodicKernel :: "'k \<Rightarrow> bool"
  is_SumKernel :: "'k \<Rightarrow> bool"

text \<open>
  The external collaborators: Eigen's inverse and decompositions, the matrix text
  format of \<^verbatim>\<open>MatrixIO.h\<close> and the formatted input and output of the C++ streams.
  A conversion \<open>conv_*\<close> reads one value from the front of a whitespace-free token:
  it returns the value stored in the target, and the unread rest of the token or
  \<open>None\<close> when the conversion fails.
\<close>

record Library =
  eigen_inverse :: "MatrixType \<Rightarrow> MatrixType"
  eigen_JacobiSVD :: "MatrixType \<Rightarrow> MatrixType \<times> VectorType \<times> MatrixType"
  eigen_BDCSVD :: "MatrixType \<Rightarrow> MatrixType \<times> VectorType \<times> MatrixType"
  eigen_SelfAdjointEigenSolver :: "MatrixType \<Rightarrow> VectorType \<times> MatrixType"
  matrix_text :: "MatrixType \<Rightarrow> string"
  text_matrix :: "string \<Rightarrow> MatrixType"
  show_scalar :: "real \<Rightarrow> string"
  show_unsigned :: "nat \<Rightarrow> string"
  show_bool :: "bool \<Rightarrow> string"
  conv_scalar :: "string \<Rightarrow> real \<times> string option"
  conv_unsigned :: "string \<Rightarrow> nat \<times> string option"
  conv_bool :: "string \<Rightarrow> bool \<times> string option"

subsection \<open>The engine state\<close>

datatype InvMethod = FullPivotLU | JacobiSVD | BDCSVD | SelfAdjointEigenSolver

text \<open>
  The members of \<^verbatim>\<open>GaussianProcess\<close>. \<^verbatim>\<open>m_InvMethod\<close> is read by
  \<^verbatim>\<open>ComputeRegressionVectors\<close>; its declaration is not in the header among the sources.
\<close>

record 'k GaussianProcess =
  m_Kernel :: "'k option"
  m_Sigma :: real
  m_SampleVectors :: "VectorType list"
  m_LabelVectors :: "VectorType list"
  m_RegressionVectors :: MatrixType
  m_CoreMatrix :: MatrixType
  m_Initialized :: bool
  m_InputDimension :: nat
  m_OutputDimension :: nat
  debug :: bool
  m_InvMethod :: InvMethod

text \<open>The constructor. Modelled from the spec: the initial value of \<^verbatim>\<open>m_InvMethod\<close>,
  whose declaration is missing, is the spec's default strategy FullPivotLU.\<close>

definition GaussianProcess_new :: "'k option \<Rightarrow> 'k GaussianProcess" where
  "GaussianProcess_new kern =
     \<lparr> m_Kernel = kern, m_Sigma = 0, m_SampleVectors = [], m_LabelVectors = [],
       m_RegressionVectors = Matrix 0 0 [], m_CoreMatrix = Matrix 0 0 [],
       m_Initialized = False, m_InputDimension = 0, m_OutputDimension = 0,
       debug = False, m_InvMethod = FullPivotLU \<rparr>"

definition DebugOn :: "'k GaussianProcess \<Rightarrow> 'k GaussianProcess" where
  "DebugOn gp = gp\<lparr> debug := True \<rparr>"

definition SetSigma :: "real \<Rightarrow> 'k GaussianProcess \<Rightarrow> 'k GaussianProcess" where
  "SetSigma sigma gp = gp\<lparr> m_Sigma := sigma, m_Initialized := False \<rparr>"

definition GetNumberOfSamples :: "'k GaussianProcess \<Rightarrow> nat" where
  "GetNumberOfSamples gp = length (m_SampleVectors gp)"

subsection \<open>Dimension checks and \<^verbatim>\<open>AddSample\<close>\<close>

definition CheckInputDimension :: "'k GaussianProcess \<Rightarrow> VectorType \<Rightarrow> error + unit" where
  "CheckInputDimension gp x =
     (if length x \<noteq> m_InputDimension gp then Inl DimensionMismatch else Inr ())"

definition CheckOutputDimension :: "'k GaussianProcess \<Rightarrow> VectorType \<Rightarrow> error + unit" where
  "CheckOutputDimension gp y =
     (if length y \<noteq> m_OutputDimension gp then Inl DimensionMismatch else Inr ())"

definition AddSample ::
  "VectorType \<Rightarrow> VectorType \<Rightarrow> 'k GaussianProcess \<Rightarrow> (error + unit) \<times> 'k GaussianProcess" where
  "AddSample x y gp =
     (let gp1 = (if m_SampleVectors gp = [] then gp\<lparr> m_InputDimension := length x \<rparr> else gp);
          gp2 = (if m_LabelVectors gp1 = [] then gp1\<lparr> m_OutputDimension := length y \<rparr> else gp1)
      in case CheckInputDimension gp2 x of
           Inl e \<Rightarrow> (Inl e, gp2)
         | Inr _ \<Rightarrow>
             (case CheckOutputDimension gp2 y of
                Inl e \<Rightarrow> (Inl e, gp2)
              | Inr _ \<Rightarrow>
                  (Inr (), gp2\<lparr> m_SampleVectors := m_SampleVectors gp2 @ [x],
                                m_LabelVectors := m_LabelVectors gp2 @ [y],
                                m_Initialized := False \<rparr>)))"

subsection \<open>Training: \<^verbatim>\<open>ComputeKernelMatrix\<close>, \<^verbatim>\<open>ComputeLabelMatrix\<close>, \<^verbatim>\<open>ComputeRegressionVectors\<close>\<close>

text \<open>The body of the inner loop of \<^verbatim>\<open>ComputeKernelMatrix\<close>: one kernel evaluation
  written to the cells \<open>(i, j)\<close> and \<open>(j, i)\<close>.\<close>

definition mirror_cell ::
  "(VectorType \<Rightarrow> VectorType \<Rightarrow> real) \<Rightarrow> VectorType list \<Rightarrow> nat \<Rightarrow> nat \<Rightarrow> MatrixType \<Rightarrow> MatrixType" where
  "mirror_cell f S i j M = (let v = f (S ! i) (S ! j) in set_coeff (set_coeff M i j v) j i v)"

definition ComputeKernelMatrix :: "'k KernelAPI \<Rightarrow> 'k GaussianProcess \<Rightarrow> error + MatrixType" where
  "ComputeKernelMatrix api gp =
     (let S = m_SampleVectors gp; n = length S
      in if n = 0 then Inr (resized 0 0)
         else case m_Kernel gp of
                None \<Rightarrow> Inl UndefinedBehaviour
              | Some k \<Rightarrow>
                  Inr (fold (\<lambda>i. fold (mirror_cell (evaluate api k) S i) [i..<n]) [0..<n]
                         (resized n n)))"

text \<open>\<^verbatim>\<open>for(i < K.rows()) K(i,i) += m_Sigma\<close>\<close>

definition add_noise :: "real \<Rightarrow> MatrixType \<Rightarrow> MatrixType" where
  "add_noise sigma K = fold (\<lambda>i M. set_coeff M i i (coeff M i i + sigma)) [0..<nrows K] K"

text \<open>\<^verbatim>\<open>V * VectorType(1/s.array()).asDiagonal() * U.transpose()\<close>\<close>

definition pseudo_inverse :: "MatrixType \<Rightarrow> VectorType \<Rightarrow> MatrixType \<Rightarrow> error + MatrixType" where
  "pseudo_inverse V s U =
     (case mat_mul V (asDiagonal (map (\<lambda>x. 1 / x) s)) of
        Inl e \<Rightarrow> Inl e
      | Inr VS \<Rightarrow> mat_mul VS (transpose_matrix U))"

text \<open>The \<^verbatim>\<open>switch(m_InvMethod)\<close> of \<^verbatim>\<open>ComputeRegressionVectors\<close>.\<close>

definition invert :: "Library \<Rightarrow> InvMethod \<Rightarrow> MatrixType \<Rightarrow> error + MatrixType" where
  "invert lib m K =
     (case m of
        FullPivotLU \<Rightarrow> Inr (eigen_inverse lib K)
      | JacobiSVD \<Rightarrow> (case eigen_JacobiSVD lib K of (U, s, V) \<Rightarrow> pseudo_inverse V s U)
      | BDCSVD \<Rightarrow> (case eigen_BDCSVD lib K of (U, s, V) \<Rightarrow> pseudo_inverse V s U)
      | SelfAdjointEigenSolver \<Rightarrow>
          (case eigen_SelfAdjointEigenSolver lib K of
             (vals, vecs) \<Rightarrow>
               (let eigenValues = rev vals;
                    eigenVectors = Matrix (nrows vecs) (ncols vecs) (map rev (entries vecs))
                in pseudo_inverse eigenVectors eigenValues eigenVectors)))"

text \<open>The rows of \<open>Y\<close> are the labels; the block assignment requires every label to have
  the size of the first.\<close>

definition ComputeLabelMatrix :: "'k GaussianProcess \<Rightarrow> error + MatrixType" where
  "ComputeLabelMatrix gp =
     (let L = m_LabelVectors gp; n = length L
      in if \<not> n > 0 then Inl UntrainedState
         else let d = length (L ! 0)
              in if \<exists>y \<in> set L. length y \<noteq> d then Inl UndefinedBehaviour
                 else Inr (Matrix n d L))"

definition ComputeRegressionVectors ::
  "Library \<Rightarrow> 'k KernelAPI \<Rightarrow> 'k GaussianProcess \<Rightarrow> (error + unit) \<times> 'k GaussianProcess" where
  "ComputeRegressionVectors lib api gp =
     (case ComputeKernelMatrix api gp of
        Inl e \<Rightarrow> (Inl e, gp)
      | Inr K0 \<Rightarrow>
          (let K = add_noise (m_Sigma gp) K0
           in case invert lib (m_InvMethod gp) K of
                Inl e \<Rightarrow> (Inl e, gp)
              | Inr C \<Rightarrow>
                  (let gp1 = gp\<lparr> m_CoreMatrix := C \<rparr>
                   in case ComputeLabelMatrix gp1 of
                        Inl e \<Rightarrow> (Inl e, gp1)
                      | Inr Y \<Rightarrow>
                          (case mat_mul C Y of
                             Inl e \<Rightarrow> (Inl e, gp1)
                           | Inr R \<Rightarrow> (Inr (), gp1\<lparr> m_RegressionVectors := R \<rparr>)))))"

definition Initialize ::
  "Library \<Rightarrow> 'k KernelAPI \<Rightarrow> 'k GaussianProcess \<Rightarrow> (error + unit) \<times> 'k GaussianProcess" where
  "Initialize lib api gp =
     (if m_Initialized gp then (Inr (), gp)
      else if \<not> length (m_SampleVectors gp) > 0 then (Inl UntrainedState, gp)
      else if \<not> length (m_LabelVectors gp) > 0 then (Inl UntrainedState, gp)
      else case ComputeRegressionVectors lib api gp of
             (Inl e, gp') \<Rightarrow> (Inl e, gp')
           | (Inr _, gp') \<Rightarrow> (Inr (), gp'\<lparr> m_Initialized := True \<rparr>))"

subsection \<open>Queries\<close>

text \<open>\<^verbatim>\<open>Kx.resize(m_RegressionVectors.rows())\<close>, then \<^verbatim>\<open>Kx(i) = k(x, m_SampleVectors[i])\<close>.\<close>

definition ComputeKernelVector ::
  "'k KernelAPI \<Rightarrow> 'k GaussianProcess \<Rightarrow> VectorType \<Rightarrow> error + VectorType" where
  "ComputeKernelVector api gp x =
     (if \<not> m_Initialized gp then Inl UntrainedState
      else let m = nrows (m_RegressionVectors gp)
           in if m = 0 then Inr []
              else if length (m_SampleVectors gp) < m then Inl UndefinedBehaviour
              else case m_Kernel gp of
                     None \<Rightarrow> Inl UndefinedBehaviour
                   | Some k \<Rightarrow>
                       Inr (map (\<lambda>i. evaluate api k x (m_SampleVectors gp ! i)) [0..<m]))"

definition Predict ::
  "Library \<Rightarrow> 'k KernelAPI \<Rightarrow> VectorType \<Rightarrow> 'k GaussianProcess
     \<Rightarrow> (error + VectorType) \<times> 'k GaussianProcess" where
  "Predict lib api x gp =
     (case Initialize lib api gp of
        (Inl e, gp') \<Rightarrow> (Inl e, gp')
      | (Inr _, gp') \<Rightarrow>
          (case CheckInputDimension gp' x of
             Inl e \<Rightarrow> (Inl e, gp')
           | Inr _ \<Rightarrow>
               (case ComputeKernelVector api gp' x of
                  Inl e \<Rightarrow> (Inl e, gp')
                | Inr Kx \<Rightarrow> (vec_mat Kx (m_RegressionVectors gp'), gp'))))"

text \<open>\<^verbatim>\<open>operator()(x, y)\<close>: \<^verbatim>\<open>(*m_Kernel)(x, y) - Kx.adjoint() * m_CoreMatrix * Ky\<close>.\<close>

definition operator_call ::
  "Library \<Rightarrow> 'k KernelAPI \<Rightarrow> VectorType \<Rightarrow> VectorType \<Rightarrow> 'k GaussianProcess
     \<Rightarrow> (error + real) \<times> 'k GaussianProcess" where
  "operator_call lib api x y gp =
     (case Initialize lib api gp of
        (Inl e, gp') \<Rightarrow> (Inl e, gp')
      | (Inr _, gp') \<Rightarrow>
          (case CheckInputDimension gp' x of
             Inl e \<Rightarrow> (Inl e, gp')
           | Inr _ \<Rightarrow>
           (case CheckInputDimension gp' y of
              Inl e \<Rightarrow> (Inl e, gp')
            | Inr _ \<Rightarrow>
            (case ComputeKernelVector api gp' x of
               Inl e \<Rightarrow> (Inl e, gp')
             | Inr Kx \<Rightarrow>
             (case ComputeKernelVector api gp' y of
                Inl e \<Rightarrow> (Inl e, gp')
              | Inr Ky \<Rightarrow>
              (case m_Kernel gp' of
                 None \<Rightarrow> (Inl UndefinedBehaviour, gp')
               | Some k \<Rightarrow>
               (case vec_mat Kx (m_CoreMatrix gp') of
                  Inl e \<Rightarrow> (Inl e, gp')
                | Inr KxC \<Rightarrow>
                    if length KxC \<noteq> length Ky then (Inl UndefinedBehaviour, gp')
                    else (Inr (evaluate api k x y - dot KxC Ky), gp'))))))))"

definition GetCredibleInterval ::
  "Library \<Rightarrow> 'k KernelAPI \<Rightarrow> VectorType \<Rightarrow> 'k GaussianProcess
     \<Rightarrow> (error + real) \<times> 'k GaussianProcess" where
  "GetCredibleInterval lib api x gp =
     (case Initialize lib api gp of
        (Inl e, gp') \<Rightarrow> (Inl e, gp')
      | (Inr _, gp') \<Rightarrow>
          (case CheckInputDimension gp' x of
             Inl e \<Rightarrow> (Inl e, gp')
           | Inr _ \<Rightarrow>
               (case operator_call lib api x x gp' of
                  (Inl e, gp'') \<Rightarrow> (Inl e, gp'')
                | (Inr c, gp'') \<Rightarrow> (Inr (2 * sqrt (max 0 c)), gp''))))"

text \<open>The rows of \<open>X\<close> are \<open>x - x\<^sub>i\<close>; the difference requires equal sizes.\<close>

definition ComputeDifferenceMatrix :: "'k GaussianProcess \<Rightarrow> VectorType \<Rightarrow> error + MatrixType" where
  "ComputeDifferenceMatrix gp x =
     (let S = m_SampleVectors gp
      in if \<exists>s \<in> set S. length s \<noteq> length x then Inl UndefinedBehaviour
         else Inr (Matrix (length S) (length x) (map (\<lambda>s. map2 (-) x s) S)))"

text \<open>\<^verbatim>\<open>D.col(i) = -X.transpose() * Kx.cwiseProduct(m_RegressionVectors.col(i))\<close> for
  \<open>i < m_OutputDimension\<close>; the result is the prediction and \<open>D\<close>.\<close>

definition PredictDerivative ::
  "Library \<Rightarrow> 'k KernelAPI \<Rightarrow> VectorType \<Rightarrow> 'k GaussianProcess
     \<Rightarrow> (error + VectorType \<times> MatrixType) \<times> 'k GaussianProcess" where
  "PredictDerivative lib api x gp =
     (case Initialize lib api gp of
        (Inl e, gp') \<Rightarrow> (Inl e, gp')
      | (Inr _, gp') \<Rightarrow>
          (case CheckInputDimension gp' x of
             Inl e \<Rightarrow> (Inl e, gp')
           | Inr _ \<Rightarrow>
           (case ComputeKernelVector api gp' x of
              Inl e \<Rightarrow> (Inl e, gp')
            | Inr Kx \<Rightarrow>
            (case ComputeDifferenceMatrix gp' x of
               Inl e \<Rightarrow> (Inl e, gp')
             | Inr X \<Rightarrow>
                 (let R = m_RegressionVectors gp';
                      d = m_InputDimension gp';
                      m = m_OutputDimension gp'
                  in if 0 < m \<and> (ncols R < m \<or> nrows R \<noteq> length (m_SampleVectors gp'))
                     then (Inl UndefinedBehaviour, gp')
                     else
                       (let Dcols = map (\<lambda>i. map (\<lambda>c. - dot c (map2 (*) Kx (col R i)))
                                                (entries (transpose_matrix X))) [0..<m];
                            D = transpose_matrix (Matrix m d Dcols)
                        in case vec_mat Kx R of
                             Inl e \<Rightarrow> (Inl e, gp')
                           | Inr p \<Rightarrow> (Inr (p, D), gp')))))))"

subsection \<open>The kernel factory (\<^verbatim>\<open>KernelFactory.h\<close>)\<close>

text \<open>The static map \<^verbatim>\<open>m_Map\<close> from component names to the \<^verbatim>\<open>Create<TKernel>\<close> functions,
  each of which returns \<^verbatim>\<open>TKernel::Load(parameters)\<close>.\<close>

type_synonym 'k MapType = "string \<Rightarrow> (real list \<Rightarrow> error + 'k) option"

text \<open>\<^verbatim>\<open>m_Map->insert(...)\<close> keeps an entry that is already there.\<close>

definition AddType :: "(real list \<Rightarrow> error + 'k) \<Rightarrow> string \<Rightarrow> 'k MapType \<Rightarrow> 'k MapType" where
  "AddType create componentName m =
     (case m componentName of None \<Rightarrow> m(componentName \<mapsto> create) | Some _ \<Rightarrow> m)"

text \<open>\<^verbatim>\<open>it = m_Map->find(kernel_string); return (*it->second)(parameters);\<close> with no test
  of \<open>it\<close> against \<^verbatim>\<open>end()\<close>.\<close>

definition KernelFactory_Load :: "'k MapType \<Rightarrow> string \<Rightarrow> real list \<Rightarrow> error + 'k" where
  "KernelFactory_Load m kernel_string parameters =
     (case m kernel_string of
        None \<Rightarrow> Inl UndefinedBehaviour
      | Some create \<Rightarrow> create parameters)"

definition RegisterKernels :: "'k KernelAPI \<Rightarrow> 'k MapType \<Rightarrow> 'k MapType" where
  "RegisterKernels api m =
     AddType (ProductKernel_Load api) ''ProductKernel''
       (AddType (SumKernel_Load api) ''SumKernel''
         (AddType (PeriodicKernel_Load api) ''PeriodicKernel''
           (AddType (GaussianKernel_Load api) ''GaussianKernel'' m)))"

subsection \<open>Files and streams\<close>

text \<open>A path names nothing, a directory or a regular file with its content. Writing a
  file replaces what the path named; failures of the storage are not modelled.\<close>

datatype fsnode = Directory | RegularFile string

type_synonym filesystem = "string \<Rightarrow> fsnode option"

text \<open>\<^verbatim>\<open>fs::exists(p) && !fs::is_directory(p)\<close>, with the content of the file.\<close>

definition regular_file :: "filesystem \<Rightarrow> string \<Rightarrow> string option" where
  "regular_file fs p = (case fs p of Some (RegularFile c) \<Rightarrow> Some c | _ \<Rightarrow> None)"

text \<open>\<^verbatim>\<open>WriteMatrix\<close> and \<^verbatim>\<open>ReadMatrix\<close> of \<^verbatim>\<open>MatrixIO.h\<close>, which is not among the
  sources: the text of a matrix and its reading are the parameters \<open>matrix_text\<close> and
  \<open>text_matrix\<close> of the library.\<close>

definition WriteMatrix :: "Library \<Rightarrow> MatrixType \<Rightarrow> string \<Rightarrow> filesystem \<Rightarrow> filesystem" where
  "WriteMatrix lib M path fs = fs(path \<mapsto> RegularFile (matrix_text lib M))"

definition ReadMatrix :: "Library \<Rightarrow> string \<Rightarrow> MatrixType" where
  "ReadMatrix lib content = text_matrix lib content"

definition isspace :: "char \<Rightarrow> bool" where
  "isspace c \<longleftrightarrow> c \<in> set [CHR '' '', CHR 0x09, CHR 0x0A, CHR 0x0B, CHR 0x0C, CHR 0x0D]"

text \<open>An input string stream: the unread characters, or \<open>None\<close> once the stream is no
  longer good (a failed read, or the end of the input reached by \<^verbatim>\<open>getline\<close>).\<close>

type_synonym istream = "string option"

text \<open>
  \<^verbatim>\<open>stream >> target\<close>: nothing happens on a stream that is not good; leading whitespace
  is skipped; at the end of the input the read fails and the target keeps its value;
  otherwise the conversion reads from the front of the next whitespace-free token.
\<close>

definition stream_extract :: "(string \<Rightarrow> 'a \<times> string option) \<Rightarrow> 'a \<Rightarrow> istream \<Rightarrow> 'a \<times> istream" where
  "stream_extract conv target st =
     (case st of
        None \<Rightarrow> (target, None)
      | Some s \<Rightarrow>
          (let s' = dropWhile isspace s
           in if s' = [] then (target, None)
              else case conv (takeWhile (\<lambda>c. \<not> isspace c) s') of
                     (v, None) \<Rightarrow> (v, None)
                   | (v, Some unread) \<Rightarrow>
                       (v, Some (unread @ dropWhile (\<lambda>c. \<not> isspace c) s'))))"

text \<open>Reading a \<^verbatim>\<open>std::string\<close> takes the whole token.\<close>

definition conv_string :: "string \<Rightarrow> string \<times> string option" where
  "conv_string tok = (tok, Some [])"

text \<open>\<^verbatim>\<open>std::getline(stream, str, delim)\<close>: success, the string read, and the stream.\<close>

definition getline :: "char \<Rightarrow> istream \<Rightarrow> bool \<times> string \<times> istream" where
  "getline delim st =
     (case st of
        None \<Rightarrow> (False, [], None)
      | Some s \<Rightarrow>
          if s = [] then (False, [], None)
          else if delim \<in> set s
          then (True, takeWhile (\<lambda>c. c \<noteq> delim) s, Some (tl (dropWhile (\<lambda>c. c \<noteq> delim) s)))
          else (True, s, None))"

text \<open>\<^verbatim>\<open>kernel_type.find("SumKernel") != std::string::npos\<close>\<close>

primrec found :: "string \<Rightarrow> string \<Rightarrow> bool" where
  "found pat [] = (pat = [])"
| "found pat (c # cs) = (take (length pat) (c # cs) = pat \<or> found pat cs)"

subsection \<open>\<^verbatim>\<open>Save\<close>\<close>

text \<open>The matrix whose columns are the given vectors, of the size of the first:
  \<^verbatim>\<open>X = Zero(v[0].size(), v.size()); X.block(0, i, v[0].size(), 1) = v[i]\<close>.\<close>

definition columns_matrix :: "VectorType list \<Rightarrow> error + MatrixType" where
  "columns_matrix vs =
     (case vs of
        [] \<Rightarrow> Inl UndefinedBehaviour
      | v0 # _ \<Rightarrow>
          if \<exists>v \<in> set vs. length v \<noteq> length v0 then Inl UndefinedBehaviour
          else Inr (Matrix (length v0) (length vs)
                     (map (\<lambda>r. map (\<lambda>v. v ! r) vs) [0..<length v0])))"

text \<open>The line written to the parameter file: kernel type, number of kernel
  parameters, kernel parameters, noise, input dimension, output dimension, debug.\<close>

definition parameter_line :: "Library \<Rightarrow> 'k KernelAPI \<Rightarrow> 'k \<Rightarrow> 'k GaussianProcess \<Rightarrow> string" where
  "parameter_line lib api k gp =
     (let kernel_parameters = GetParameters api k
      in ToString api k @ '' '' @ show_unsigned lib (length kernel_parameters) @ '' ''
         @ concat (map (\<lambda>p. show_scalar lib p @ '' '') kernel_parameters)
         @ show_scalar lib (m_Sigma gp) @ '' '' @ show_unsigned lib (m_InputDimension gp) @ '' ''
         @ show_unsigned lib (m_OutputDimension gp) @ '' '' @ show_bool lib (debug gp))"

definition Save ::
  "Library \<Rightarrow> 'k KernelAPI \<Rightarrow> string \<Rightarrow> 'k GaussianProcess \<times> filesystem
     \<Rightarrow> (error + unit) \<times> 'k GaussianProcess \<times> filesystem" where
  "Save lib api prefix st =
     (case st of (gp, fs) \<Rightarrow>
        if \<not> m_Initialized gp then (Inl UntrainedState, gp, fs)
        else
          (let fs1 = WriteMatrix lib (m_RegressionVectors gp) (prefix @ ''-RegressionVectors.txt'') fs;
               fs2 = WriteMatrix lib (m_CoreMatrix gp) (prefix @ ''-CoreMatrix.txt'') fs1
           in case columns_matrix (m_SampleVectors gp) of
                Inl e \<Rightarrow> (Inl e, gp, fs2)
              | Inr X \<Rightarrow>
                  (let fs3 = WriteMatrix lib X (prefix @ ''-SampleVectors.txt'') fs2
                   in case columns_matrix (m_LabelVectors gp) of
                        Inl e \<Rightarrow> (Inl e, gp, fs3)
                      | Inr Y \<Rightarrow>
                          (let fs4 = WriteMatrix lib Y (prefix @ ''-LabelVectors.txt'') fs3
                           in case m_Kernel gp of
                                None \<Rightarrow> (Inl UndefinedBehaviour, gp, fs4)
                              | Some k \<Rightarrow>
                                  (Inr (), gp,
                                   fs4(prefix @ ''-ParameterFile.txt'' \<mapsto>
                                         RegularFile (parameter_line lib api k gp)))))))"

subsection \<open>\<^verbatim>\<open>Load\<close>\<close>

text \<open>The loop over \<^verbatim>\<open>num_kernel_parameters\<close>: a parameter that cannot be read clears
  \<^verbatim>\<open>load\<close>, a parameter that can is appended.\<close>

fun read_kernel_parameters ::
  "Library \<Rightarrow> nat \<Rightarrow> istream \<Rightarrow> bool \<Rightarrow> real list \<Rightarrow> bool \<times> real list \<times> istream" where
  "read_kernel_parameters lib 0 st load ps = (load, ps, st)"
| "read_kernel_parameters lib (Suc p) st load ps =
     (case stream_extract (conv_scalar lib) 0 st of
        (v, None) \<Rightarrow> read_kernel_parameters lib p None False ps
      | (v, Some r) \<Rightarrow> read_kernel_parameters lib p (Some r) load (ps @ [v]))"

text \<open>Reading the line of the parameter file: the kernel type and parameters are
  locals, the noise, the dimensions and the debug flag are read into the members.\<close>

definition read_parameter_line ::
  "Library \<Rightarrow> 'k GaussianProcess \<Rightarrow> string
     \<Rightarrow> (error + string \<times> real list) \<times> 'k GaussianProcess" where
  "read_parameter_line lib gp line =
     (case stream_extract conv_string [] (Some line) of (kernel_type, st1) \<Rightarrow>
      case stream_extract (conv_unsigned lib) 0 st1 of (num_kernel_parameters, st2) \<Rightarrow>
      case read_kernel_parameters lib num_kernel_parameters st2 (st1 \<noteq> None \<and> st2 \<noteq> None) [] of
        (load, kernel_parameters, st3) \<Rightarrow>
      case stream_extract (conv_scalar lib) (m_Sigma gp) st3 of (sigma, st4) \<Rightarrow>
      case stream_extract (conv_unsigned lib) (m_InputDimension gp) st4 of (din, st5) \<Rightarrow>
      case stream_extract (conv_unsigned lib) (m_OutputDimension gp) st5 of (dout, st6) \<Rightarrow>
      case stream_extract (conv_bool lib) (debug gp) st6 of (dbg, st7) \<Rightarrow>
        (let gp' = gp\<lparr> m_Sigma := sigma, m_InputDimension := din,
                       m_OutputDimension := dout, debug := dbg \<rparr>
         in if st7 = None \<or> \<not> load then (Inl CorruptParameterFile, gp')
            else (Inr (kernel_type, kernel_parameters), gp')))"

text \<open>\<^verbatim>\<open>if(std::getline(parameter_infile, line)) {...}\<close>: an empty file has no line, and
  then nothing is read and nothing is checked.\<close>

definition read_parameter_file ::
  "Library \<Rightarrow> 'k GaussianProcess \<Rightarrow> string
     \<Rightarrow> (error + string \<times> real list) \<times> 'k GaussianProcess" where
  "read_parameter_file lib gp content =
     (if content = [] then (Inr ([], []), gp)
      else read_parameter_line lib gp (takeWhile (\<lambda>c. c \<noteq> CHR 0x0A) content))"

text \<open>\<^verbatim>\<open>std::dynamic_pointer_cast\<close>: the pointer, or null when the object is not of the
  class.\<close>

definition dynamic_pointer_cast :: "('k \<Rightarrow> bool) \<Rightarrow> error + 'k \<Rightarrow> error + 'k option" where
  "dynamic_pointer_cast is_class r =
     (case r of Inl e \<Rightarrow> Inl e | Inr k \<Rightarrow> Inr (if is_class k then Some k else None))"

text \<open>The dispatch on the kernel type at the end of \<^verbatim>\<open>Load\<close>: the new value of
  \<^verbatim>\<open>m_Kernel\<close>, or the exception.\<close>

definition Load_kernel ::
  "'k KernelAPI \<Rightarrow> 'k MapType \<Rightarrow> string \<Rightarrow> real list \<Rightarrow> error + 'k option" where
  "Load_kernel api m kernel_type kernel_parameters =
     (if kernel_type = ''GaussianKernel''
      then dynamic_pointer_cast (is_GaussianKernel api)
             (KernelFactory_Load m kernel_type kernel_parameters)
      else if kernel_type = ''PeriodicKernel''
      then dynamic_pointer_cast (is_PeriodicKernel api)
             (KernelFactory_Load m kernel_type kernel_parameters)
      else if found ''SumKernel'' kernel_type
      then (case getline CHR ''#'' (Some kernel_type) of (ok1, sumkernel, ss1) \<Rightarrow>
              if \<not> ok1 \<and> sumkernel \<noteq> ''SumKernel'' then Inl TokenizeFailure
              else case getline CHR ''#'' ss1 of (ok2, kernel1, ss2) \<Rightarrow>
                if \<not> ok2 then Inl TokenizeFailure
                else case getline CHR ''#'' ss2 of (ok3, kernel2, ss3) \<Rightarrow>
                  if \<not> ok3 then Inl TokenizeFailure
                  else dynamic_pointer_cast (is_SumKernel api)
                         (KernelFactory_Load m sumkernel kernel_parameters))
      else Inl UnknownKernelType)"

definition Load ::
  "Library \<Rightarrow> 'k KernelAPI \<Rightarrow> 'k MapType \<Rightarrow> string \<Rightarrow> filesystem \<Rightarrow> 'k GaussianProcess
     \<Rightarrow> (error + unit) \<times> 'k GaussianProcess" where
  "Load lib api m prefix fs gp =
     (case regular_file fs (prefix @ ''-RegressionVectors.txt'') of
        None \<Rightarrow> (Inl FileNotFound, gp)
      | Some rv \<Rightarrow>
     (let gp1 = gp\<lparr> m_RegressionVectors := ReadMatrix lib rv \<rparr>
      in case regular_file fs (prefix @ ''-CoreMatrix.txt'') of
        None \<Rightarrow> (Inl FileNotFound, gp1)
      | Some cm \<Rightarrow>
     (let gp2 = gp1\<lparr> m_CoreMatrix := ReadMatrix lib cm \<rparr>
      in case regular_file fs (prefix @ ''-SampleVectors.txt'') of
        None \<Rightarrow> (Inl FileNotFound, gp2)
      | Some sv \<Rightarrow>
     (let X = ReadMatrix lib sv;
          gp3 = gp2\<lparr> m_SampleVectors := map (col X) [0..<ncols X] \<rparr>
      in case regular_file fs (prefix @ ''-LabelVectors.txt'') of
        None \<Rightarrow> (Inl FileNotFound, gp3)
      | Some lv \<Rightarrow>
     (let Y = ReadMatrix lib lv;
          gp4 = gp3\<lparr> m_LabelVectors := map (col Y) [0..<ncols Y] \<rparr>
      in case regular_file fs (prefix @ ''-ParameterFile.txt'') of
        None \<Rightarrow> (Inl FileNotFound, gp4)
      | Some pf \<Rightarrow>
     (case read_parameter_file lib gp4 pf of
        (Inl e, gp5) \<Rightarrow> (Inl e, gp5)
      | (Inr (kernel_type, kernel_parameters), gp5) \<Rightarrow>
          (case Load_kernel api m kernel_type kernel_parameters of
             Inl e \<Rightarrow> (Inl e, gp5)
           | Inr k \<Rightarrow> (Inr (), gp5\<lparr> m_Kernel := k, m_Initialized := True \<rparr>))))))))"

subsection \<open>\<^verbatim>\<open>operator==\<close>\<close>

text \<open>The loop over the sample (or label) vectors: the first pair whose difference has
  a positive norm ends the comparison.\<close>

fun any_vector_differs :: "VectorType list \<Rightarrow> VectorType list \<Rightarrow> error + bool" where
  "any_vector_differs (u # us) (v # vs) =
     (case vec_diff_norm_positive u v of
        Inl e \<Rightarrow> Inl e
      | Inr True \<Rightarrow> Inr True
      | Inr False \<Rightarrow> any_vector_differs us vs)"
| "any_vector_differs _ _ = Inr False"

definition operator_eq ::
  "'k KernelAPI \<Rightarrow> 'k GaussianProcess \<Rightarrow> 'k GaussianProcess \<Rightarrow> error + bool" where
  "operator_eq api a b =
     (case diff_norm_positive (m_RegressionVectors a) (m_RegressionVectors b) of
        Inl e \<Rightarrow> Inl e
      | Inr True \<Rightarrow> Inr False
      | Inr False \<Rightarrow>
     (case diff_norm_positive (m_CoreMatrix a) (m_CoreMatrix b) of
        Inl e \<Rightarrow> Inl e
      | Inr True \<Rightarrow> Inr False
      | Inr False \<Rightarrow>
     if length (m_SampleVectors a) \<noteq> length (m_SampleVectors b) then Inr False
     else
     (case any_vector_differs (m_SampleVectors a) (m_SampleVectors b) of
        Inl e \<Rightarrow> Inl e
      | Inr True \<Rightarrow> Inr False
      | Inr False \<Rightarrow>
     if length (m_LabelVectors a) \<noteq> length (m_LabelVectors b) then Inr False
     else
     (case any_vector_differs (m_LabelVectors a) (m_LabelVectors b) of
        Inl e \<Rightarrow> Inl e
      | Inr True \<Rightarrow> Inr False
      | Inr False \<Rightarrow>
     (case (m_Kernel a, m_Kernel b) of
        (Some ka, Some kb) \<Rightarrow>
          if kernel_differs api ka kb then Inr False
          else if m_Sigma a \<noteq> m_Sigma b then Inr False
          else if m_Initialized a \<noteq> m_Initialized b then Inr False
          else if m_InputDimension a \<noteq> m_InputDimension b then Inr False
          else if m_OutputDimension a \<noteq> m_OutputDimension b then Inr False
          else if debug a \<noteq> debug b then Inr False
          else Inr True
      | _ \<Rightarrow> Inl UndefinedBehaviour)))))"

subsection \<open>Contracts of the collaborators\<close>

text \<open>A text that a stream reads as one token: not empty and free of whitespace.\<close>

definition token :: "string \<Rightarrow> bool" where
  "token t \<longleftrightarrow> t \<noteq> [] \<and> (\<forall>c \<in> set t. \<not> isspace c)"

text \<open>The text written for a value is one token, from which the conversion reads the
  value and leaves nothing.\<close>

definition reads_back :: "('a \<Rightarrow> string) \<Rightarrow> (string \<Rightarrow> 'a \<times> string option) \<Rightarrow> 'a \<Rightarrow> bool" where
  "reads_back shw conv v \<longleftrightarrow> token (shw v) \<and> conv (shw v) = (v, Some [])"

text \<open>
  The kernel \<open>k\<close> is of a registered atomic class, or a sum of two of them, and the
  \<^verbatim>\<open>Load\<close> of its class rebuilds from its parameters a kernel \<open>k'\<close> of that class which
  \<^verbatim>\<open>operator!=\<close> does not tell from \<open>k\<close>.
\<close>

definition kernel_reloads :: "'k KernelAPI \<Rightarrow> 'k \<Rightarrow> 'k \<Rightarrow> bool" where
  "kernel_reloads api k k' \<longleftrightarrow>
     \<not> kernel_differs api k k'
   \<and> ((ToString api k = ''GaussianKernel''
         \<and> GaussianKernel_Load api (GetParameters api k) = Inr k' \<and> is_GaussianKernel api k')
      \<or> (ToString api k = ''PeriodicKernel''
         \<and> PeriodicKernel_Load api (GetParameters api k) = Inr k' \<and> is_PeriodicKernel api k')
      \<or> ((\<exists>a \<in> {''GaussianKernel'', ''PeriodicKernel''}.
           \<exists>b \<in> {''GaussianKernel'', ''PeriodicKernel''}.
             ToString api k = ''SumKernel#'' @ a @ ''#'' @ b)
         \<and> SumKernel_Load api (GetParameters api k) = Inr k' \<and> is_SumKernel api k'))"

subsection \<open>The public operations as calls\<close>

text \<open>The operations a caller has on an engine and a file system, and the state a call
  leaves behind whether it returns or throws.\<close>

datatype call =
    Call_AddSample VectorType VectorType
  | Call_SetSigma real
  | Call_DebugOn
  | Call_Initialize
  | Call_Predict VectorType
  | Call_PredictDerivative VectorType
  | Call_operator_call VectorType VectorType
  | Call_GetCredibleInterval VectorType
  | Call_Save string
  | Call_Load string

definition perform ::
  "Library \<Rightarrow> 'k KernelAPI \<Rightarrow> 'k MapType \<Rightarrow> call \<Rightarrow> 'k GaussianProcess \<times> filesystem
     \<Rightarrow> 'k GaussianProcess \<times> filesystem" where
  "perform lib api m c st =
     (case st of (gp, fs) \<Rightarrow>
        (case c of
           Call_AddSample x y \<Rightarrow> (snd (AddSample x y gp), fs)
         | Call_SetSigma sigma \<Rightarrow> (SetSigma sigma gp, fs)
         | Call_DebugOn \<Rightarrow> (DebugOn gp, fs)
         | Call_Initialize \<Rightarrow> (snd (Initialize lib api gp), fs)
         | Call_Predict x \<Rightarrow> (snd (Predict lib api x gp), fs)
         | Call_PredictDerivative x \<Rightarrow> (snd (PredictDerivative lib api x gp), fs)
         | Call_operator_call x y \<Rightarrow> (snd (operator_call lib api x y gp), fs)
         | Call_GetCredibleInterval x \<Rightarrow> (snd (GetCredibleInterval lib api x gp), fs)
         | Call_Save prefix \<Rightarrow> snd (Save lib api prefix (gp, fs))
         | Call_Load prefix \<Rightarrow> (snd (Load lib api m prefix fs gp), fs)))"

definition is_Load :: "call \<Rightarrow> bool" where
  "is_Load c = (case c of Call_Load _ \<Rightarrow> True | _ \<Rightarrow> False)"

text \<open>The operations whose first statement is \<^verbatim>\<open>Initialize()\<close>.\<close>

definition calls_Initialize :: "call \<Rightarrow> bool" where
  "calls_Initialize c =
     (case c of
        Call_Initialize \<Rightarrow> True
      | Call_Predict _ \<Rightarrow> True
      | Call_PredictDerivative _ \<Rightarrow> True
      | Call_operator_call _ _ \<Rightarrow> True
      | Call_GetCredibleInterval _ \<Rightarrow> True
      | _ \<Rightarrow> False)"

text \<open>The cached core matrix and regression vectors are the ones a full recomputation
  from the current samples, labels, kernel and noise gives.\<close>

definition cache_consistent :: "Library \<Rightarrow> 'k KernelAPI \<Rightarrow> 'k GaussianProcess \<Rightarrow> bool" where
  "cache_consistent lib api gp =
     (case ComputeRegressionVectors lib api gp of
        (Inr _, gp') \<Rightarrow>
          m_CoreMatrix gp' = m_CoreMatrix gp \<and> m_RegressionVectors gp' = m_RegressionVectors gp
      | (Inl _, _) \<Rightarrow> False)"

subsection \<open>A small instance of the kernel classes and of the library\<close>

text \<open>
  The model is evaluated on concrete inputs with this instance. A kernel object is its
  class and its parameter list, and evaluates to the scalar product of its arguments.
  The library inverts matrices of one and two rows exactly and writes numbers in
  decimal notation, scalars by their integer part.
\<close>

datatype demo_class = Gaussian | Periodic | Sum | Product

datatype demo_kernel = DemoKernel (kernel_class: demo_class) (kernel_params: "real list")

definition demo_tag :: "demo_class \<Rightarrow> string" where
  "demo_tag c =
     (case c of
        Gaussian \<Rightarrow> ''GaussianKernel''
      | Periodic \<Rightarrow> ''PeriodicKernel''
      | Sum \<Rightarrow> ''SumKernel#GaussianKernel#PeriodicKernel''
      | Product \<Rightarrow> ''ProductKernel#GaussianKernel#PeriodicKernel'')"

definition demo_api :: "demo_kernel KernelAPI" where
  "demo_api =
     \<lparr> evaluate = (\<lambda>k x y. dot x y),
       GetParameters = kernel_params,
       ToString = (\<lambda>k. demo_tag (kernel_class k)),
       kernel_differs = (\<lambda>a b. a \<noteq> b),
       GaussianKernel_Load = (\<lambda>ps. Inr (DemoKernel Gaussian ps)),
       PeriodicKernel_Load = (\<lambda>ps. Inr (DemoKernel Periodic ps)),
       SumKernel_Load = (\<lambda>ps. Inr (DemoKernel Sum ps)),
       ProductKernel_Load = (\<lambda>ps. Inr (DemoKernel Product ps)),
       is_GaussianKernel = (\<lambda>k. kernel_class k = Gaussian),
       is_PeriodicKernel = (\<lambda>k. kernel_class k = Periodic),
       is_SumKernel = (\<lambda>k. kernel_class k = Sum) \<rparr>"

definition demo_inverse :: "MatrixType \<Rightarrow> MatrixType" where
  "demo_inverse M =
     (if nrows M = 1 \<and> ncols M = 1 then Matrix 1 1 [[1 / coeff M 0 0]]
      else if nrows M = 2 \<and> ncols M = 2
      then (let a = coeff M 0 0; b = coeff M 0 1; c = coeff M 1 0; d = coeff M 1 1;
                det = a * d - b * c
            in Matrix 2 2 [[d / det, - b / det], [- c / det, a / det]])
      else M)"

definition digit_char :: "nat \<Rightarrow> char" where
  "digit_char n = ''0123456789'' ! n"

fun show_nat :: "nat \<Rightarrow> string" where
  "show_nat n = (if n < 10 then [digit_char n] else show_nat (n div 10) @ [digit_char (n mod 10)])"

declare show_nat.simps [simp del]

definition isdigit :: "char \<Rightarrow> bool" where
  "isdigit c \<longleftrightarrow> c \<in> set ''0123456789''"

definition digit_val :: "char \<Rightarrow> nat" where
  "digit_val c =
     (if c = CHR ''1'' then 1 else if c = CHR ''2'' then 2 else if c = CHR ''3'' then 3
      else if c = CHR ''4'' then 4 else if c = CHR ''5'' then 5 else if c = CHR ''6'' then 6
      else if c = CHR ''7'' then 7 else if c = CHR ''8'' then 8 else if c = CHR ''9'' then 9
      else 0)"

definition read_nat :: "string \<Rightarrow> nat" where
  "read_nat ds = foldl (\<lambda>n c. 10 * n + digit_val c) 0 ds"

definition demo_conv_unsigned :: "string \<Rightarrow> nat \<times> string option" where
  "demo_conv_unsigned tok =
     (let ds = takeWhile isdigit tok
      in if ds = [] then (0, None)
         else if 4294967296 \<le> read_nat ds then (4294967295, None)
         else (read_nat ds, Some (dropWhile isdigit tok)))"

definition demo_conv_scalar :: "string \<Rightarrow> real \<times> string option" where
  "demo_conv_scalar tok =
     (let ds = takeWhile isdigit tok
      in if ds = [] then (0, None)
         else (real (read_nat ds), Some (dropWhile isdigit tok)))"

definition demo_conv_bool :: "string \<Rightarrow> bool \<times> string option" where
  "demo_conv_bool tok =
     (case tok of
        [] \<Rightarrow> (False, None)
      | c # r \<Rightarrow>
          if c = CHR ''0'' then (False, Some r)
          else if c = CHR ''1'' then (True, Some r)
          else (False, None))"

primrec split_spaces :: "string \<Rightarrow> string \<Rightarrow> string list" where
  "split_spaces cur [] = (if cur = [] then [] else [cur])"
| "split_spaces cur (c # cs) =
     (if c = CHR '' ''
      then (if cur = [] then split_spaces [] cs else cur # split_spaces [] cs)
      else split_spaces (cur @ [c]) cs)"

text \<open>The matrix text of the instance: the two dimensions, then the entries row by
  row, separated by single spaces.\<close>

definition demo_matrix_text :: "MatrixType \<Rightarrow> string" where
  "demo_matrix_text M =
     show_nat (nrows M)
     @ concat (map (\<lambda>t. '' '' @ t)
                 (show_nat (ncols M) # map (\<lambda>x. show_nat (nat \<lfloor>x\<rfloor>)) (concat (entries M))))"

definition demo_text_matrix :: "string \<Rightarrow> MatrixType" where
  "demo_text_matrix s =
     (case map read_nat (split_spaces [] s) of
        r # c # es \<Rightarrow> Matrix r c (map (\<lambda>i. map real (take c (drop (i * c) es))) [0..<r])
      | _ \<Rightarrow> Matrix 0 0 [])"

definition demo_lib :: Library where
  "demo_lib =
     \<lparr> eigen_inverse = demo_inverse,
       eigen_JacobiSVD = (\<lambda>M. (M, replicate (ncols M) 1, M)),
       eigen_BDCSVD = (\<lambda>M. (M, replicate (ncols M) 1, M)),
       eigen_SelfAdjointEigenSolver = (\<lambda>M. (replicate (ncols M) 1, M)),
       matrix_text = demo_matrix_text,
       text_matrix = demo_text_matrix,
       show_scalar = (\<lambda>x. show_nat (nat \<lfloor>x\<rfloor>)),
       show_unsigned = show_nat,
       show_bool = (\<lambda>b. if b then ''1'' else ''0''),
       conv_scalar = demo_conv_scalar,
       conv_unsigned = demo_conv_unsigned,
       conv_bool = demo_conv_bool \<rparr>"

text \<open>An engine with the samples \<open>(1, 0)\<close> and \<open>(0, 1)\<close>, the labels \<open>3\<close> and \<open>4\<close> and
  noise \<open>1\<close>, before training.\<close>

definition demo_gp :: "demo_kernel GaussianProcess" where
  "demo_gp =
     \<lparr> m_Kernel = Some (DemoKernel Gaussian [2]), m_Sigma = 1,
       m_SampleVectors = [[1, 0], [0, 1]], m_LabelVectors = [[3], [4]],
       m_RegressionVectors = Matrix 0 0 [], m_CoreMatrix = Matrix 0 0 [],
       m_Initialized = False, m_InputDimension = 2, m_OutputDimension = 1,
       debug = False, m_InvMethod = FullPivotLU \<rparr>"

text \<open>The same engine after training: the kernel matrix is the identity, the
  regularised matrix twice the identity.\<close>

definition demo_trained :: "demo_kernel GaussianProcess" where
  "demo_trained =
     demo_gp\<lparr> m_CoreMatrix := Matrix 2 2 [[1 / 2, 0], [0, 1 / 2]],
              m_RegressionVectors := Matrix 2 1 [[3 / 2], [2]],
              m_Initialized := True \<rparr>"

text \<open>Five files under the prefix \<open>gp\<close> whose parameter file names a kernel type
  that no branch of \<^verbatim>\<open>Load\<close> knows.\<close>

definition demo_files :: filesystem where
  "demo_files =
     [''gp-RegressionVectors.txt'' \<mapsto> RegularFile ''2 1 3 4'',
      ''gp-CoreMatrix.txt'' \<mapsto> RegularFile ''2 2 1 0 0 1'',
      ''gp-SampleVectors.txt'' \<mapsto> RegularFile ''2 2 1 0 0 1'',
      ''gp-LabelVectors.txt'' \<mapsto> RegularFile ''1 2 3 4'',
      ''gp-ParameterFile.txt'' \<mapsto> RegularFile ''UnknownKernel 1 2 5 2 1 1'']"

text \<open>A trained engine with the same samples and labels and no noise, whose matrices
  have whole entries, and the same engine with a sum kernel.\<close>

definition demo_saved :: "demo_kernel GaussianProcess" where
  "demo_saved =
     demo_gp\<lparr> m_Sigma := 0, m_CoreMatrix := Matrix 2 2 [[1, 0], [0, 1]],
              m_RegressionVectors := Matrix 2 1 [[3], [4]], m_Initialized := True \<rparr>"

definition demo_saved_sum :: "demo_kernel GaussianProcess" where
  "demo_saved_sum = demo_saved\<lparr> m_Kernel := Some (DemoKernel Sum [2, 7]) \<rparr>"

section \<open>Properties\<close>

subsection \<open>\<^verbatim>\<open>AddSample\<close>\<close>



subsection \<open>Training\<close>

lemma nrows_set_coeff [simp]: "nrows (set_coeff M i j v) = nrows M"
  and ncols_set_coeff [simp]: "ncols (set_coeff M i j v) = ncols M"
  by (simp_all add: set_coeff_def)

lemma wf_set_coeff: "wf_matrix M \<Longrightarrow> wf_matrix (set_coeff M i j v)"
proof -
  assume wf: "wf_matrix M"
  show ?thesis
  proof (cases "i < length (entries M)")
    case True
    then have "entries M ! i \<in> set (entries M)" by simp
    with wf have "length ((entries M ! i)[j := v]) = ncols M"
      by (simp add: wf_matrix_def)
    with wf show ?thesis
      by (auto simp: wf_matrix_def set_coeff_def dest!: subsetD [OF set_update_subset_insert])
  next
    case False
    with wf show ?thesis by (simp add: wf_matrix_def set_coeff_def list_update_beyond)
  qed
qed

lemma coeff_set_coeff_same:
  "wf_matrix M \<Longrightarrow> i < nrows M \<Longrightarrow> j < ncols M \<Longrightarrow> coeff (set_coeff M i j v) i j = v"
  by (simp add: wf_matrix_def set_coeff_def coeff_def)

lemma coeff_set_coeff_other:
  assumes "\<not> (a = i \<and> b = j)"
  shows "coeff (set_coeff M i j v) a b = coeff M a b"
proof (cases "a = i")
  case False
  then show ?thesis by (simp add: set_coeff_def coeff_def)
next
  case True
  with assms have bj: "b \<noteq> j" by simp
  show ?thesis
  proof (cases "i < length (entries M)")
    case True
    with \<open>a = i\<close> bj show ?thesis by (simp add: set_coeff_def coeff_def)
  next
    case False
    then show ?thesis by (simp add: set_coeff_def coeff_def list_update_beyond)
  qed
qed

lemma wf_resized [simp]: "wf_matrix (resized r c)"
  by (simp add: wf_matrix_def resized_def)

lemma dims_resized [simp]: "nrows (resized r c) = r" "ncols (resized r c) = c"
  by (simp_all add: resized_def)

lemma mirror_cell_props:
  assumes "wf_matrix M" "nrows M = n" "ncols M = n" "i < n" "j < n"
  shows "wf_matrix (mirror_cell f S i j M)"
    and "nrows (mirror_cell f S i j M) = n"
    and "ncols (mirror_cell f S i j M) = n"
    and "coeff (mirror_cell f S i j M) i j = f (S ! i) (S ! j)"
    and "coeff (mirror_cell f S i j M) j i = f (S ! i) (S ! j)"
    and "\<not> (a = i \<and> b = j) \<Longrightarrow> \<not> (a = j \<and> b = i) \<Longrightarrow>
           coeff (mirror_cell f S i j M) a b = coeff M a b"
proof -
  let ?v = "f (S ! i) (S ! j)"
  let ?M1 = "set_coeff M i j ?v"
  have eq: "mirror_cell f S i j M = set_coeff ?M1 j i ?v"
    by (simp add: mirror_cell_def Let_def)
  have wf1: "wf_matrix ?M1" using assms(1) by (rule wf_set_coeff)
  have d1: "i < nrows M" "j < ncols M" "j < nrows ?M1" "i < ncols ?M1"
    using assms by simp_all
  show "wf_matrix (mirror_cell f S i j M)"
    unfolding eq using wf1 by (rule wf_set_coeff)
  show "nrows (mirror_cell f S i j M) = n" "ncols (mirror_cell f S i j M) = n"
    unfolding eq using assms by simp_all
  show "coeff (mirror_cell f S i j M) j i = ?v"
    unfolding eq using wf1 d1(3,4) by (rule coeff_set_coeff_same)
  show "coeff (mirror_cell f S i j M) i j = ?v"
  proof (cases "i = j")
    case True
    then show ?thesis unfolding eq using coeff_set_coeff_same [OF wf1 d1(3,4)] by simp
  next
    case False
    then have "coeff (set_coeff ?M1 j i ?v) i j = coeff ?M1 i j"
      by (intro coeff_set_coeff_other) simp
    then show ?thesis unfolding eq using coeff_set_coeff_same [OF assms(1) d1(1,2)] by simp
  qed
  assume ne: "\<not> (a = i \<and> b = j)" "\<not> (a = j \<and> b = i)"
  have "coeff (set_coeff ?M1 j i ?v) a b = coeff ?M1 a b"
    using ne(2) by (rule coeff_set_coeff_other)
  also have "\<dots> = coeff M a b"
    using ne(1) by (rule coeff_set_coeff_other)
  finally show "coeff (mirror_cell f S i j M) a b = coeff M a b"
    unfolding eq .
qed

lemma fill_row:
  assumes "wf_matrix M" "nrows M = n" "ncols M = n" "i < n" "m \<le> n"
  shows "wf_matrix (fold (mirror_cell f S i) [i..<m] M)
       \<and> nrows (fold (mirror_cell f S i) [i..<m] M) = n
       \<and> ncols (fold (mirror_cell f S i) [i..<m] M) = n
       \<and> (\<forall>b. i \<le> b \<and> b < m \<longrightarrow>
             coeff (fold (mirror_cell f S i) [i..<m] M) i b = f (S ! i) (S ! b)
           \<and> coeff (fold (mirror_cell f S i) [i..<m] M) b i = f (S ! i) (S ! b))
       \<and> (\<forall>a b. \<not> (a = i \<and> i \<le> b \<and> b < m) \<and> \<not> (b = i \<and> i \<le> a \<and> a < m) \<longrightarrow>
             coeff (fold (mirror_cell f S i) [i..<m] M) a b = coeff M a b)"
  using assms(5)
proof (induction m)
  case 0
  with assms show ?case by simp
next
  case (Suc m)
  show ?case
  proof (cases "i \<le> m")
    case False
    then have "[i..<Suc m] = []" by simp
    then show ?thesis using assms False by simp
  next
    case True
    let ?N = "fold (mirror_cell f S i) [i..<m] M"
    let ?N' = "mirror_cell f S i m ?N"
    from Suc.prems have mn: "m < n" by simp
    from Suc.prems Suc.IH have IH: "wf_matrix ?N" "nrows ?N = n" "ncols ?N = n"
      and IHrow: "\<And>b. i \<le> b \<Longrightarrow> b < m \<Longrightarrow>
             coeff ?N i b = f (S ! i) (S ! b) \<and> coeff ?N b i = f (S ! i) (S ! b)"
      and IHrest: "\<And>a b. \<not> (a = i \<and> i \<le> b \<and> b < m) \<Longrightarrow> \<not> (b = i \<and> i \<le> a \<and> a < m) \<Longrightarrow>
             coeff ?N a b = coeff M a b"
      by simp_all
    have step: "fold (mirror_cell f S i) [i..<Suc m] M = ?N'"
      using True by simp
    note mc = mirror_cell_props [OF IH assms(4) mn, where f = f and S = S]
    have row: "coeff ?N' i b = f (S ! i) (S ! b) \<and> coeff ?N' b i = f (S ! i) (S ! b)"
      if "i \<le> b" "b < Suc m" for b
    proof (cases "b = m")
      case True
      then show ?thesis using mc(4,5) by simp
    next
      case False
      with that have bm: "b < m" by simp
      have "coeff ?N' i b = coeff ?N i b" using False bm by (intro mc(6)) simp_all
      moreover have "coeff ?N' b i = coeff ?N b i" using False bm by (intro mc(6)) simp_all
      ultimately show ?thesis using IHrow [OF that(1) bm] by simp
    qed
    have rest: "coeff ?N' a b = coeff M a b"
      if "\<not> (a = i \<and> i \<le> b \<and> b < Suc m)" "\<not> (b = i \<and> i \<le> a \<and> a < Suc m)" for a b
    proof -
      have "coeff ?N' a b = coeff ?N a b"
        using that True by (intro mc(6)) auto
      also have "\<dots> = coeff M a b"
        using that by (intro IHrest) auto
      finally show ?thesis .
    qed
    show ?thesis
      unfolding step using mc(1-3) row rest by blast
  qed
qed

lemma fill_matrix:
  assumes "wf_matrix M" "nrows M = n" "ncols M = n" "m \<le> n"
  shows "wf_matrix (fold (\<lambda>i. fold (mirror_cell f S i) [i..<n]) [0..<m] M)
       \<and> nrows (fold (\<lambda>i. fold (mirror_cell f S i) [i..<n]) [0..<m] M) = n
       \<and> ncols (fold (\<lambda>i. fold (mirror_cell f S i) [i..<n]) [0..<m] M) = n
       \<and> (\<forall>a b. a < m \<and> a \<le> b \<and> b < n \<longrightarrow>
             coeff (fold (\<lambda>i. fold (mirror_cell f S i) [i..<n]) [0..<m] M) a b = f (S ! a) (S ! b)
           \<and> coeff (fold (\<lambda>i. fold (mirror_cell f S i) [i..<n]) [0..<m] M) b a = f (S ! a) (S ! b))
       \<and> (\<forall>a b. m \<le> a \<and> m \<le> b \<longrightarrow>
             coeff (fold (\<lambda>i. fold (mirror_cell f S i) [i..<n]) [0..<m] M) a b = coeff M a b)"
  using assms(4)
proof (induction m)
  case 0
  with assms show ?case by simp
next
  case (Suc m)
  let ?F = "\<lambda>i. fold (mirror_cell f S i) [i..<n]"
  let ?N = "fold ?F [0..<m] M"
  let ?N' = "?F m ?N"
  from Suc.prems have mn: "m < n" by simp
  from Suc.prems Suc.IH have IH: "wf_matrix ?N" "nrows ?N = n" "ncols ?N = n"
    and IHdone: "\<And>a b. a < m \<Longrightarrow> a \<le> b \<Longrightarrow> b < n \<Longrightarrow>
           coeff ?N a b = f (S ! a) (S ! b) \<and> coeff ?N b a = f (S ! a) (S ! b)"
    and IHrest: "\<And>a b. m \<le> a \<Longrightarrow> m \<le> b \<Longrightarrow> coeff ?N a b = coeff M a b"
    by simp_all
  have step: "fold ?F [0..<Suc m] M = ?N'" by simp
  from fill_row [OF IH mn order_refl, where f = f and S = S]
  have fr: "wf_matrix ?N'" "nrows ?N' = n" "ncols ?N' = n"
    and frrow: "\<And>b. m \<le> b \<Longrightarrow> b < n \<Longrightarrow>
           coeff ?N' m b = f (S ! m) (S ! b) \<and> coeff ?N' b m = f (S ! m) (S ! b)"
    and frrest: "\<And>a b. \<not> (a = m \<and> m \<le> b \<and> b < n) \<Longrightarrow> \<not> (b = m \<and> m \<le> a \<and> a < n) \<Longrightarrow>
           coeff ?N' a b = coeff ?N a b"
    by blast+
  have filled: "coeff ?N' a b = f (S ! a) (S ! b) \<and> coeff ?N' b a = f (S ! a) (S ! b)"
    if "a < Suc m" "a \<le> b" "b < n" for a b
  proof (cases "a = m")
    case True
    then show ?thesis using frrow that by simp
  next
    case False
    with that have am: "a < m" by simp
    have "coeff ?N' a b = coeff ?N a b" using am by (intro frrest) auto
    moreover have "coeff ?N' b a = coeff ?N b a" using am by (intro frrest) auto
    ultimately show ?thesis using IHdone [OF am that(2,3)] by simp
  qed
  have rest: "coeff ?N' a b = coeff M a b" if "Suc m \<le> a" "Suc m \<le> b" for a b
  proof -
    have "coeff ?N' a b = coeff ?N a b" using that by (intro frrest) auto
    also have "\<dots> = coeff M a b" using that by (intro IHrest) auto
    finally show ?thesis .
  qed
  show ?case
    unfolding step using fr filled rest by blast
qed


lemma add_noise_fold:
  assumes "wf_matrix K" "nrows K = n" "ncols K = n" "m \<le> n"
  shows "wf_matrix (fold (\<lambda>i M. set_coeff M i i (coeff M i i + s)) [0..<m] K)
       \<and> nrows (fold (\<lambda>i M. set_coeff M i i (coeff M i i + s)) [0..<m] K) = n
       \<and> ncols (fold (\<lambda>i M. set_coeff M i i (coeff M i i + s)) [0..<m] K) = n
       \<and> (\<forall>a. a < m \<longrightarrow>
             coeff (fold (\<lambda>i M. set_coeff M i i (coeff M i i + s)) [0..<m] K) a a = coeff K a a + s)
       \<and> (\<forall>a b. \<not> (a = b \<and> a < m) \<longrightarrow>
             coeff (fold (\<lambda>i M. set_coeff M i i (coeff M i i + s)) [0..<m] K) a b = coeff K a b)"
  using assms(4)
proof (induction m)
  case 0
  with assms show ?case by simp
next
  case (Suc m)
  let ?G = "\<lambda>i M. set_coeff M i i (coeff M i i + s)"
  let ?N = "fold ?G [0..<m] K"
  let ?N' = "?G m ?N"
  from Suc.prems have mn: "m < n" by simp
  from Suc.prems Suc.IH have IH: "wf_matrix ?N" "nrows ?N = n" "ncols ?N = n"
    and IHd: "\<And>a. a < m \<Longrightarrow> coeff ?N a a = coeff K a a + s"
    and IHr: "\<And>a b. \<not> (a = b \<and> a < m) \<Longrightarrow> coeff ?N a b = coeff K a b"
    by simp_all
  have step: "fold ?G [0..<Suc m] K = ?N'" by simp
  have bounds: "m < nrows ?N" "m < ncols ?N" using IH mn by simp_all
  have wf': "wf_matrix ?N'" using IH(1) by (rule wf_set_coeff)
  have dims': "nrows ?N' = n" "ncols ?N' = n" using IH by simp_all
  have diag: "coeff ?N' a a = coeff K a a + s" if "a < Suc m" for a
  proof (cases "a = m")
    case True
    have "coeff ?N m m = coeff K m m" by (intro IHr) simp
    moreover have "coeff ?N' m m = coeff ?N m m + s"
      using IH(1) bounds by (rule coeff_set_coeff_same)
    ultimately show ?thesis using True by simp
  next
    case False
    with that have am: "a < m" by simp
    have "coeff ?N' a a = coeff ?N a a"
      using False by (intro coeff_set_coeff_other) simp
    then show ?thesis using IHd [OF am] by simp
  qed
  have rest: "coeff ?N' a b = coeff K a b" if "\<not> (a = b \<and> a < Suc m)" for a b
  proof -
    from that have ne: "\<not> (a = m \<and> b = m)" "\<not> (a = b \<and> a < m)" by auto
    have "coeff ?N' a b = coeff ?N a b" using ne(1) by (rule coeff_set_coeff_other)
    then show ?thesis using IHr [OF ne(2)] by simp
  qed
  show ?case unfolding step using wf' dims' diag rest by blast
qed

lemma add_noise_props:
  assumes "wf_matrix K" "nrows K = n" "ncols K = n"
  shows "wf_matrix (add_noise s K)" "nrows (add_noise s K) = n" "ncols (add_noise s K) = n"
    and "a < n \<Longrightarrow> coeff (add_noise s K) a a = coeff K a a + s"
    and "a \<noteq> b \<Longrightarrow> coeff (add_noise s K) a b = coeff K a b"
  using add_noise_fold [OF assms order_refl, of s] assms(2)
  unfolding add_noise_def by blast+

lemma ComputeKernelMatrix_props:
  assumes "m_Kernel gp = Some k" "m_SampleVectors gp \<noteq> []"
  obtains K where "ComputeKernelMatrix api gp = Inr K"
    and "wf_matrix K" "nrows K = length (m_SampleVectors gp)" "ncols K = length (m_SampleVectors gp)"
    and "\<And>i j. i \<le> j \<Longrightarrow> j < length (m_SampleVectors gp) \<Longrightarrow>
           coeff K i j = evaluate api k (m_SampleVectors gp ! i) (m_SampleVectors gp ! j)
         \<and> coeff K j i = evaluate api k (m_SampleVectors gp ! i) (m_SampleVectors gp ! j)"
proof -
  let ?S = "m_SampleVectors gp"
  let ?n = "length ?S"
  let ?K = "fold (\<lambda>i. fold (mirror_cell (evaluate api k) ?S i) [i..<?n]) [0..<?n] (resized ?n ?n)"
  have eq: "ComputeKernelMatrix api gp = Inr ?K"
    using assms by (simp add: ComputeKernelMatrix_def Let_def)
  from fill_matrix [OF wf_resized dims_resized order_refl, where f = "evaluate api k" and S = ?S]
  have "wf_matrix ?K" "nrows ?K = ?n" "ncols ?K = ?n"
    and "\<And>a b. a < ?n \<Longrightarrow> a \<le> b \<Longrightarrow> b < ?n \<Longrightarrow>
           coeff ?K a b = evaluate api k (?S ! a) (?S ! b)
         \<and> coeff ?K b a = evaluate api k (?S ! a) (?S ! b)"
    by blast+
  then have "wf_matrix ?K" "nrows ?K = ?n" "ncols ?K = ?n"
    and "\<And>i j. i \<le> j \<Longrightarrow> j < ?n \<Longrightarrow>
           coeff ?K i j = evaluate api k (?S ! i) (?S ! j)
         \<and> coeff ?K j i = evaluate api k (?S ! i) (?S ! j)"
    by simp_all
  with eq show thesis by (rule that)
qed

lemma ComputeLabelMatrix_rows:
  assumes "m_LabelVectors gp \<noteq> []" "\<forall>y \<in> set (m_LabelVectors gp). length y = d"
  shows "ComputeLabelMatrix gp = Inr (Matrix (length (m_LabelVectors gp)) d (m_LabelVectors gp))"
proof -
  from assms(1) have "m_LabelVectors gp ! 0 \<in> set (m_LabelVectors gp)" by simp
  with assms(2) have "length (m_LabelVectors gp ! 0) = d" by blast
  with assms show ?thesis by (simp add: ComputeLabelMatrix_def Let_def)
qed

text \<open>
  C1. On an untrained engine with at least one sample, as many labels as samples, all
  labels of one size, and the FullPivotLU strategy, \<^verbatim>\<open>Initialize()\<close> builds the
  \<open>n \<times> n\<close> kernel matrix \<open>K\<close> with \<open>K(i, j) = k(x\<^sub>i, x\<^sub>j)\<close> for \<open>j \<ge> i\<close> and the mirrored
  cell \<open>K(j, i) = K(i, j)\<close>, adds the noise to every diagonal entry, sets the core
  matrix to the library's inverse of the regularised matrix, takes the labels as the
  rows of \<open>Y\<close>, sets the regression vectors to the product of the core matrix and
  \<open>Y\<close>, and sets the trained flag. The library's inverse is assumed to keep the
  number of columns.
\<close>

theorem Initialize_FullPivotLU:
  assumes untrained: "\<not> m_Initialized gp"
    and strategy: "m_InvMethod gp = FullPivotLU"
    and kern: "m_Kernel gp = Some k"
    and samples: "m_SampleVectors gp \<noteq> []"
    and labels: "length (m_LabelVectors gp) = length (m_SampleVectors gp)"
    and label_size: "\<forall>y \<in> set (m_LabelVectors gp). length y = d"
    and inverse_cols: "\<forall>M. ncols (eigen_inverse lib M) = ncols M"
  shows "\<exists>K C R.
      ComputeKernelMatrix api gp = Inr K
    \<and> wf_matrix K \<and> nrows K = length (m_SampleVectors gp) \<and> ncols K = length (m_SampleVectors gp)
    \<and> (\<forall>i j. i \<le> j \<and> j < length (m_SampleVectors gp) \<longrightarrow>
          coeff K i j = evaluate api k (m_SampleVectors gp ! i) (m_SampleVectors gp ! j)
        \<and> coeff K j i = coeff K i j)
    \<and> (\<forall>i j. i < length (m_SampleVectors gp) \<and> j < length (m_SampleVectors gp) \<longrightarrow>
          coeff (add_noise (m_Sigma gp) K) i j = coeff K i j + (if i = j then m_Sigma gp else 0))
    \<and> C = eigen_inverse lib (add_noise (m_Sigma gp) K)
    \<and> mat_mul C (Matrix (length (m_LabelVectors gp)) d (m_LabelVectors gp)) = Inr R
    \<and> Initialize lib api gp =
        (Inr (), gp\<lparr> m_CoreMatrix := C, m_RegressionVectors := R, m_Initialized := True \<rparr>)"
proof -
  let ?S = "m_SampleVectors gp"
  let ?L = "m_LabelVectors gp"
  let ?n = "length ?S"
  from ComputeKernelMatrix_props [OF kern samples, where api = api]
  obtain K where K: "ComputeKernelMatrix api gp = Inr K"
    and wfK: "wf_matrix K" and dimK: "nrows K = ?n" "ncols K = ?n"
    and cK: "\<And>i j. i \<le> j \<Longrightarrow> j < ?n \<Longrightarrow>
           coeff K i j = evaluate api k (?S ! i) (?S ! j)
         \<and> coeff K j i = evaluate api k (?S ! i) (?S ! j)"
    by blast
  let ?Ks = "add_noise (m_Sigma gp) K"
  let ?C = "eigen_inverse lib ?Ks"
  let ?Y = "Matrix (length ?L) d ?L"
  note an = add_noise_props [OF wfK dimK, where s = "m_Sigma gp"]
  have noise: "coeff ?Ks i j = coeff K i j + (if i = j then m_Sigma gp else 0)"
    if "i < ?n" "j < ?n" for i j
  proof (cases "i = j")
    case True
    then show ?thesis using an(4) [where a = i] that by simp
  next
    case False
    then show ?thesis using an(5) [where a = i and b = j] by simp
  qed
  from samples labels have Lne: "?L \<noteq> []" by auto
  have Y: "ComputeLabelMatrix (gp\<lparr> m_CoreMatrix := ?C \<rparr>) = Inr ?Y"
    using ComputeLabelMatrix_rows [where gp = "gp\<lparr> m_CoreMatrix := ?C \<rparr>" and d = d] Lne label_size by simp
  have colsC: "ncols ?C = nrows ?Y"
    using inverse_cols an(3) labels by simp
  then obtain R where R: "mat_mul ?C ?Y = Inr R"
    by (simp add: mat_mul_def)
  have inv: "invert lib (m_InvMethod gp) ?Ks = Inr ?C"
    using strategy by (simp add: invert_def)
  have crv: "ComputeRegressionVectors lib api gp =
      (Inr (), gp\<lparr> m_CoreMatrix := ?C, m_RegressionVectors := R \<rparr>)"
    by (simp add: ComputeRegressionVectors_def K inv Y R Let_def)
  have init: "Initialize lib api gp =
      (Inr (), gp\<lparr> m_CoreMatrix := ?C, m_RegressionVectors := R, m_Initialized := True \<rparr>)"
    using untrained samples Lne by (simp add: Initialize_def crv)
  from K wfK dimK cK noise R init show ?thesis by (intro exI [of _ K] exI [of _ ?C] exI [of _ R]) simp
qed


lemma Initialize_trained: "m_Initialized gp \<Longrightarrow> Initialize lib api gp = (Inr (), gp)"
  by (simp add: Initialize_def)

lemma ComputeRegressionVectors_frame:
  assumes "ComputeRegressionVectors lib api gp = (r, gp')"
  shows "m_Kernel gp' = m_Kernel gp \<and> m_Sigma gp' = m_Sigma gp
       \<and> m_SampleVectors gp' = m_SampleVectors gp \<and> m_LabelVectors gp' = m_LabelVectors gp
       \<and> m_Initialized gp' = m_Initialized gp
       \<and> m_InputDimension gp' = m_InputDimension gp \<and> m_OutputDimension gp' = m_OutputDimension gp
       \<and> debug gp' = debug gp \<and> m_InvMethod gp' = m_InvMethod gp"
  using assms
  by (auto simp: ComputeRegressionVectors_def Let_def split: sum.splits)

lemma Initialize_frame:
  assumes "Initialize lib api gp = (r, gp')"
  shows "m_Kernel gp' = m_Kernel gp \<and> m_Sigma gp' = m_Sigma gp
       \<and> m_SampleVectors gp' = m_SampleVectors gp \<and> m_LabelVectors gp' = m_LabelVectors gp
       \<and> m_InputDimension gp' = m_InputDimension gp \<and> m_OutputDimension gp' = m_OutputDimension gp
       \<and> debug gp' = debug gp \<and> m_InvMethod gp' = m_InvMethod gp"
proof (cases "m_Initialized gp \<or> m_SampleVectors gp = [] \<or> m_LabelVectors gp = []")
  case True
  with assms show ?thesis by (auto simp: Initialize_def split: if_splits)
next
  case False
  obtain r1 gp1 where crv: "ComputeRegressionVectors lib api gp = (r1, gp1)"
    by (cases "ComputeRegressionVectors lib api gp")
  from ComputeRegressionVectors_frame [OF crv] assms False crv show ?thesis
    by (cases r1) (auto simp: Initialize_def)
qed

lemma Initialize_success:
  assumes "Initialize lib api gp = (Inr u, gp')"
  shows "m_Initialized gp'"
proof (cases "m_Initialized gp")
  case True
  with assms show ?thesis by (simp add: Initialize_def)
next
  case False
  with assms show ?thesis
    by (auto simp: Initialize_def split: if_splits prod.splits sum.splits)
qed

lemma ComputeKernelVector_samples:
  assumes "m_Initialized gp" "m_Kernel gp = Some k"
    and "nrows (m_RegressionVectors gp) = length (m_SampleVectors gp)"
  shows "ComputeKernelVector api gp x = Inr (map (evaluate api k x) (m_SampleVectors gp))"
proof -
  have "map (\<lambda>i. evaluate api k x (m_SampleVectors gp ! i)) [0..<length (m_SampleVectors gp)]
        = map (evaluate api k x) (map ((!) (m_SampleVectors gp)) [0..<length (m_SampleVectors gp)])"
    by (simp add: comp_def)
  then have "map (\<lambda>i. evaluate api k x (m_SampleVectors gp ! i)) [0..<length (m_SampleVectors gp)]
        = map (evaluate api k x) (m_SampleVectors gp)"
    by (simp only: map_nth)
  with assms show ?thesis
    by (simp add: ComputeKernelVector_def Let_def)
qed

subsection \<open>Queries\<close>

text \<open>
  C6. On an engine with at least one sample on which \<^verbatim>\<open>Initialize()\<close> succeeds, leaving
  regression vectors with one row per sample, \<^verbatim>\<open>Predict(x)\<close> leaves the state that
  \<^verbatim>\<open>Initialize()\<close> leaves (the state it had, when the trained flag was set), fails with
  DimensionMismatch when \<open>|x|\<close> differs from the input dimension, and otherwise returns
  the vector \<open>Kx\<^sup>T R\<close> with \<open>Kx(i) = k(x, x\<^sub>i)\<close> for every sample \<open>x\<^sub>i\<close>.
\<close>

theorem Predict_contract:
  assumes samples: "m_SampleVectors gp \<noteq> []"
    and init: "Initialize lib api gp = (Inr (), gp')"
    and kern: "m_Kernel gp = Some k"
    and rows: "nrows (m_RegressionVectors gp') = length (m_SampleVectors gp)"
  shows "(m_Initialized gp \<longrightarrow> gp' = gp)
       \<and> Predict lib api x gp =
           (if length x \<noteq> m_InputDimension gp then Inl DimensionMismatch
            else Inr (map (\<lambda>j. dot (map (evaluate api k x) (m_SampleVectors gp))
                                   (col (m_RegressionVectors gp') j))
                          [0..<ncols (m_RegressionVectors gp')]),
            gp')"
proof -
  note fr = Initialize_frame [OF init]
  have tr: "m_Initialized gp'" using init by (rule Initialize_success)
  have kv: "ComputeKernelVector api gp' x = Inr (map (evaluate api k x) (m_SampleVectors gp))"
    using ComputeKernelVector_samples [OF tr, where k = k and api = api and x = x] fr kern rows
    by simp
  have same: "m_Initialized gp \<longrightarrow> gp' = gp"
    using init by (auto simp: Initialize_trained)
  have "Predict lib api x gp =
           (if length x \<noteq> m_InputDimension gp then Inl DimensionMismatch
            else Inr (map (\<lambda>j. dot (map (evaluate api k x) (m_SampleVectors gp))
                                   (col (m_RegressionVectors gp') j))
                          [0..<ncols (m_RegressionVectors gp')]),
            gp')"
    using fr rows by (simp add: Predict_def init CheckInputDimension_def kv vec_mat_def)
  with same show ?thesis by simp
qed

text \<open>
  C7. On an engine with at least one sample on which \<^verbatim>\<open>Initialize()\<close> succeeds, with
  one row of the regression vectors and one row and column of the core matrix per
  sample, and for \<open>x\<close> and \<open>y\<close> of the input dimension, \<^verbatim>\<open>operator()(x, y)\<close> returns
  \<open>k(x, y) - Kx\<^sup>T C Ky\<close> and \<^verbatim>\<open>GetCredibleInterval(x)\<close> returns twice the square root of
  the maximum of zero and \<^verbatim>\<open>operator()(x, x)\<close>; whatever the engine and the input,
  \<^verbatim>\<open>GetCredibleInterval\<close> never returns a negative number.
\<close>

theorem operator_call_and_GetCredibleInterval:
  "(m_SampleVectors gp \<noteq> [] \<and> Initialize lib api gp = (Inr (), gp') \<and> m_Kernel gp = Some k
      \<and> nrows (m_RegressionVectors gp') = length (m_SampleVectors gp)
      \<and> nrows (m_CoreMatrix gp') = length (m_SampleVectors gp)
      \<and> ncols (m_CoreMatrix gp') = length (m_SampleVectors gp)
      \<and> length x = m_InputDimension gp \<and> length y = m_InputDimension gp
    \<longrightarrow> operator_call lib api x y gp =
          (Inr (evaluate api k x y
                - dot (map (\<lambda>j. dot (map (evaluate api k x) (m_SampleVectors gp))
                                    (col (m_CoreMatrix gp') j))
                           [0..<length (m_SampleVectors gp)])
                      (map (evaluate api k y) (m_SampleVectors gp))), gp')
      \<and> GetCredibleInterval lib api x gp =
          (Inr (2 * sqrt (max 0
             (evaluate api k x x
                - dot (map (\<lambda>j. dot (map (evaluate api k x) (m_SampleVectors gp))
                                    (col (m_CoreMatrix gp') j))
                           [0..<length (m_SampleVectors gp)])
                      (map (evaluate api k x) (m_SampleVectors gp))))), gp'))
   \<and> (\<forall>c s. GetCredibleInterval lib api x gp = (Inr c, s) \<longrightarrow> 0 \<le> c)"
proof (intro conjI impI allI)
  fix c s
  assume "GetCredibleInterval lib api x gp = (Inr c, s)"
  then obtain c0 where "c = 2 * sqrt (max 0 c0)"
    by (auto simp: GetCredibleInterval_def split: prod.splits sum.splits)
  then show "0 \<le> c" by simp
next
  assume A: "m_SampleVectors gp \<noteq> [] \<and> Initialize lib api gp = (Inr (), gp') \<and> m_Kernel gp = Some k
      \<and> nrows (m_RegressionVectors gp') = length (m_SampleVectors gp)
      \<and> nrows (m_CoreMatrix gp') = length (m_SampleVectors gp)
      \<and> ncols (m_CoreMatrix gp') = length (m_SampleVectors gp)
      \<and> length x = m_InputDimension gp \<and> length y = m_InputDimension gp"
  then have init: "Initialize lib api gp = (Inr (), gp')" by simp
  note fr = Initialize_frame [OF init]
  have tr: "m_Initialized gp'" using init by (rule Initialize_success)
  have init': "Initialize lib api gp' = (Inr (), gp')" using tr by (rule Initialize_trained)
  have kv: "ComputeKernelVector api gp' z = Inr (map (evaluate api k z) (m_SampleVectors gp))" for z
    using ComputeKernelVector_samples [OF tr, where k = k and api = api and x = z] fr A
    by simp
  have oc: "operator_call lib api u v g =
          (Inr (evaluate api k u v
                - dot (map (\<lambda>j. dot (map (evaluate api k u) (m_SampleVectors gp))
                                    (col (m_CoreMatrix gp') j))
                           [0..<length (m_SampleVectors gp)])
                      (map (evaluate api k v) (m_SampleVectors gp))), gp')"
    if "Initialize lib api g = (Inr (), gp')" "length u = m_InputDimension gp"
       "length v = m_InputDimension gp" for u v g
    using that fr A
    by (simp add: operator_call_def CheckInputDimension_def kv vec_mat_def)
  show "operator_call lib api x y gp =
          (Inr (evaluate api k x y
                - dot (map (\<lambda>j. dot (map (evaluate api k x) (m_SampleVectors gp))
                                    (col (m_CoreMatrix gp') j))
                           [0..<length (m_SampleVectors gp)])
                      (map (evaluate api k y) (m_SampleVectors gp))), gp')"
    using A by (intro oc) simp_all
  show "GetCredibleInterval lib api x gp =
          (Inr (2 * sqrt (max 0
             (evaluate api k x x
                - dot (map (\<lambda>j. dot (map (evaluate api k x) (m_SampleVectors gp))
                                    (col (m_CoreMatrix gp') j))
                           [0..<length (m_SampleVectors gp)])
                      (map (evaluate api k x) (m_SampleVectors gp))))), gp')"
    using A fr oc [OF init', of x x]
    by (simp add: GetCredibleInterval_def init CheckInputDimension_def)
qed

subsection \<open>Recomputation and the cached matrices\<close>

lemma ComputeKernelMatrix_cong:
  "m_SampleVectors h = m_SampleVectors gp \<Longrightarrow> m_Kernel h = m_Kernel gp \<Longrightarrow>
   ComputeKernelMatrix api h = ComputeKernelMatrix api gp"
  by (simp add: ComputeKernelMatrix_def Let_def)

lemma ComputeLabelMatrix_cong:
  "m_LabelVectors h = m_LabelVectors gp \<Longrightarrow> ComputeLabelMatrix h = ComputeLabelMatrix gp"
  by (simp add: ComputeLabelMatrix_def)

lemma cache_consistent_iff:
  "cache_consistent lib api gp \<longleftrightarrow>
     fst (ComputeRegressionVectors lib api gp) = Inr ()
   \<and> m_CoreMatrix (snd (ComputeRegressionVectors lib api gp)) = m_CoreMatrix gp
   \<and> m_RegressionVectors (snd (ComputeRegressionVectors lib api gp)) = m_RegressionVectors gp"
  by (auto simp: cache_consistent_def split: prod.splits sum.splits)

lemma ComputeLabelMatrix_core:
  "ComputeLabelMatrix (gp\<lparr> m_CoreMatrix := C \<rparr>) = ComputeLabelMatrix gp"
  by (simp add: ComputeLabelMatrix_def)

lemma ComputeRegressionVectors_cases:
  "ComputeRegressionVectors lib api gp =
     (case ComputeKernelMatrix api gp of
        Inl e \<Rightarrow> (Inl e, gp)
      | Inr K0 \<Rightarrow>
          (case invert lib (m_InvMethod gp) (add_noise (m_Sigma gp) K0) of
             Inl e \<Rightarrow> (Inl e, gp)
           | Inr C \<Rightarrow>
               (case ComputeLabelMatrix gp of
                  Inl e \<Rightarrow> (Inl e, gp\<lparr> m_CoreMatrix := C \<rparr>)
                | Inr Y \<Rightarrow>
                    (case mat_mul C Y of
                       Inl e \<Rightarrow> (Inl e, gp\<lparr> m_CoreMatrix := C \<rparr>)
                     | Inr R \<Rightarrow> (Inr (), gp\<lparr> m_CoreMatrix := C, m_RegressionVectors := R \<rparr>)))))"
  by (simp only: ComputeRegressionVectors_def Let_def ComputeLabelMatrix_core)

lemma ComputeRegressionVectors_success:
  assumes "fst (ComputeRegressionVectors lib api gp) = Inr ()"
  obtains K0 C Y R where "ComputeKernelMatrix api gp = Inr K0"
    and "invert lib (m_InvMethod gp) (add_noise (m_Sigma gp) K0) = Inr C"
    and "ComputeLabelMatrix gp = Inr Y" and "mat_mul C Y = Inr R"
    and "snd (ComputeRegressionVectors lib api gp) = gp\<lparr> m_CoreMatrix := C, m_RegressionVectors := R \<rparr>"
proof (cases "ComputeKernelMatrix api gp")
  case (Inl e)
  with assms show ?thesis by (simp add: ComputeRegressionVectors_cases)
next
  case K0: (Inr K0)
  show ?thesis
  proof (cases "invert lib (m_InvMethod gp) (add_noise (m_Sigma gp) K0)")
    case (Inl e)
    with assms K0 show ?thesis by (simp add: ComputeRegressionVectors_cases)
  next
    case C: (Inr C)
    show ?thesis
    proof (cases "ComputeLabelMatrix gp")
      case (Inl e)
      with assms K0 C show ?thesis by (simp add: ComputeRegressionVectors_cases)
    next
      case Y: (Inr Y)
      show ?thesis
      proof (cases "mat_mul C Y")
        case (Inl e)
        with assms K0 C Y show ?thesis by (simp add: ComputeRegressionVectors_cases)
      next
        case R: (Inr R)
        have "snd (ComputeRegressionVectors lib api gp)
                = gp\<lparr> m_CoreMatrix := C, m_RegressionVectors := R \<rparr>"
          by (simp add: ComputeRegressionVectors_cases K0 C Y R)
        with K0 C Y R show ?thesis by (rule that)
      qed
    qed
  qed
qed

lemma ComputeRegressionVectors_cong:
  assumes "m_SampleVectors h = m_SampleVectors gp" "m_Kernel h = m_Kernel gp"
    and "m_LabelVectors h = m_LabelVectors gp" "m_Sigma h = m_Sigma gp"
    and "m_InvMethod h = m_InvMethod gp"
    and "fst (ComputeRegressionVectors lib api gp) = Inr ()"
  shows "fst (ComputeRegressionVectors lib api h) = Inr ()"
    and "m_CoreMatrix (snd (ComputeRegressionVectors lib api h))
           = m_CoreMatrix (snd (ComputeRegressionVectors lib api gp))"
    and "m_RegressionVectors (snd (ComputeRegressionVectors lib api h))
           = m_RegressionVectors (snd (ComputeRegressionVectors lib api gp))"
proof -
  have km: "ComputeKernelMatrix api h = ComputeKernelMatrix api gp"
    using assms(1,2) by (rule ComputeKernelMatrix_cong)
  have lm: "ComputeLabelMatrix h = ComputeLabelMatrix gp"
    using assms(3) by (rule ComputeLabelMatrix_cong)
  from assms(6) obtain K0 C Y R where K0: "ComputeKernelMatrix api gp = Inr K0"
    and C: "invert lib (m_InvMethod gp) (add_noise (m_Sigma gp) K0) = Inr C"
    and Y: "ComputeLabelMatrix gp = Inr Y" and R: "mat_mul C Y = Inr R"
    and g: "snd (ComputeRegressionVectors lib api gp) = gp\<lparr> m_CoreMatrix := C, m_RegressionVectors := R \<rparr>"
    by (rule ComputeRegressionVectors_success)
  have h: "ComputeRegressionVectors lib api h
             = (Inr (), h\<lparr> m_CoreMatrix := C, m_RegressionVectors := R \<rparr>)"
    by (simp add: ComputeRegressionVectors_cases [of lib api h] km lm K0 assms(4,5) C Y R)
  show "fst (ComputeRegressionVectors lib api h) = Inr ()" by (simp add: h)
  show "m_CoreMatrix (snd (ComputeRegressionVectors lib api h))
           = m_CoreMatrix (snd (ComputeRegressionVectors lib api gp))"
    by (simp add: h g)
  show "m_RegressionVectors (snd (ComputeRegressionVectors lib api h))
           = m_RegressionVectors (snd (ComputeRegressionVectors lib api gp))"
    by (simp add: h g)
qed

lemma cache_consistent_cong:
  assumes "m_SampleVectors h = m_SampleVectors gp" "m_Kernel h = m_Kernel gp"
    and "m_LabelVectors h = m_LabelVectors gp" "m_Sigma h = m_Sigma gp"
    and "m_InvMethod h = m_InvMethod gp"
    and "m_CoreMatrix h = m_CoreMatrix gp" "m_RegressionVectors h = m_RegressionVectors gp"
    and "cache_consistent lib api gp"
  shows "cache_consistent lib api h"
proof -
  from assms(8) have ok: "fst (ComputeRegressionVectors lib api gp) = Inr ()"
    by (simp add: cache_consistent_iff)
  from ComputeRegressionVectors_cong [OF assms(1-5) ok] assms(6-8)
  show ?thesis by (simp add: cache_consistent_iff)
qed

lemma Initialize_recomputes:
  assumes "\<not> m_Initialized gp" "Initialize lib api gp = (Inr (), gp')"
  shows "cache_consistent lib api gp'"
proof -
  obtain r g1 where crv: "ComputeRegressionVectors lib api gp = (r, g1)"
    by (cases "ComputeRegressionVectors lib api gp")
  from assms crv have r: "r = Inr ()" and gp': "gp' = g1\<lparr> m_Initialized := True \<rparr>"
    by (auto simp: Initialize_def split: if_splits sum.splits)
  note fr = ComputeRegressionVectors_frame [OF crv]
  have ok: "fst (ComputeRegressionVectors lib api gp) = Inr ()"
    using crv r by simp
  have "cache_consistent lib api g1"
    using ComputeRegressionVectors_cong [where h = g1 and gp = gp and lib = lib and api = api, OF _ _ _ _ _ ok]
      fr crv
    by (simp add: cache_consistent_iff)
  then show ?thesis
    unfolding gp' by (rule cache_consistent_cong [rotated -1]) simp_all
qed

lemma Initialize_failure_flag:
  assumes "Initialize lib api gp = (Inl e, gp')"
  shows "\<not> m_Initialized gp'"
proof -
  from assms have nt: "\<not> m_Initialized gp"
    by (auto simp: Initialize_def split: if_splits)
  obtain r g1 where crv: "ComputeRegressionVectors lib api gp = (r, g1)"
    by (cases "ComputeRegressionVectors lib api gp")
  from ComputeRegressionVectors_frame [OF crv] assms crv nt show ?thesis
    by (auto simp: Initialize_def split: if_splits sum.splits)
qed

lemma snd_Predict: "snd (Predict lib api x gp) = snd (Initialize lib api gp)"
  by (simp add: Predict_def split: prod.splits sum.splits)

lemma snd_PredictDerivative: "snd (PredictDerivative lib api x gp) = snd (Initialize lib api gp)"
  by (simp add: PredictDerivative_def Let_def split: prod.splits sum.splits)

lemma snd_operator_call: "snd (operator_call lib api x y gp) = snd (Initialize lib api gp)"
  by (simp add: operator_call_def split: prod.splits sum.splits option.splits)

lemma snd_GetCredibleInterval:
  "snd (GetCredibleInterval lib api x gp) = snd (Initialize lib api gp)"
proof (cases "Initialize lib api gp")
  case (Pair r gp')
  show ?thesis
  proof (cases r)
    case (Inl e)
    with Pair show ?thesis by (simp add: GetCredibleInterval_def)
  next
    case (Inr u)
    with Pair have "m_Initialized gp'" by (auto intro: Initialize_success)
    then have "snd (operator_call lib api x x gp') = gp'"
      by (simp add: snd_operator_call Initialize_trained)
    with Pair Inr show ?thesis
      by (auto simp: GetCredibleInterval_def split: prod.splits sum.splits)
  qed
qed

lemma snd_AddSample_flag:
  "m_Initialized (snd (AddSample x y gp)) \<Longrightarrow> m_Initialized gp"
  by (auto simp: AddSample_def Let_def split: sum.splits if_splits)

lemma snd_AddSample_consistent:
  assumes "m_Initialized (snd (AddSample x y gp))" "cache_consistent lib api gp"
  shows "cache_consistent lib api (snd (AddSample x y gp))"
proof -
  from assms(1) have rej: "fst (AddSample x y gp) \<noteq> Inr ()"
    by (auto simp: AddSample_def Let_def split: sum.splits if_splits)
  show ?thesis
    by (rule cache_consistent_cong [OF _ _ _ _ _ _ _ assms(2)])
       (use rej in \<open>auto simp: AddSample_def Let_def split: sum.splits if_splits\<close>)
qed

lemma snd_Save: "fst (snd (Save lib api prefix (gp, fs))) = gp"
  by (simp add: Save_def Let_def split: sum.splits option.splits)


subsection \<open>The trained flag\<close>

lemma Initialize_preserves_consistency:
  assumes "m_Initialized gp \<longrightarrow> cache_consistent lib api gp"
  shows "m_Initialized (snd (Initialize lib api gp))
         \<longrightarrow> cache_consistent lib api (snd (Initialize lib api gp))"
proof (cases "m_Initialized gp")
  case True
  with assms show ?thesis by (simp add: Initialize_trained)
next
  case False
  obtain r gp' where init: "Initialize lib api gp = (r, gp')"
    by (cases "Initialize lib api gp")
  show ?thesis
  proof (cases r)
    case (Inl e)
    with init have "Initialize lib api gp = (Inl e, gp')" by simp
    then have "\<not> m_Initialized gp'" by (rule Initialize_failure_flag)
    with init show ?thesis by simp
  next
    case (Inr u)
    with init have "Initialize lib api gp = (Inr (), gp')" by simp
    with False have "cache_consistent lib api gp'" by (rule Initialize_recomputes)
    with init show ?thesis by simp
  qed
qed

lemma perform_preserves_consistency:
  assumes "\<not> is_Load c" and "m_Initialized gp \<longrightarrow> cache_consistent lib api gp"
  shows "m_Initialized (fst (perform lib api m c (gp, fs)))
         \<longrightarrow> cache_consistent lib api (fst (perform lib api m c (gp, fs)))"
proof (cases c)
  case (Call_AddSample x y)
  then show ?thesis
    using assms(2) snd_AddSample_flag [of x y gp] snd_AddSample_consistent [of x y gp lib api]
    by (auto simp: perform_def)
next
  case (Call_SetSigma sigma)
  then show ?thesis by (simp add: perform_def SetSigma_def)
next
  case Call_DebugOn
  have "cache_consistent lib api (DebugOn gp)" if "cache_consistent lib api gp"
    by (rule cache_consistent_cong [OF _ _ _ _ _ _ _ that]) (simp_all add: DebugOn_def)
  with Call_DebugOn assms(2) show ?thesis by (auto simp: perform_def DebugOn_def)
next
  case Call_Initialize
  then show ?thesis
    using Initialize_preserves_consistency [OF assms(2)] by (simp add: perform_def)
next
  case (Call_Predict x)
  then show ?thesis
    using Initialize_preserves_consistency [OF assms(2)] by (simp add: perform_def snd_Predict)
next
  case (Call_PredictDerivative x)
  then show ?thesis
    using Initialize_preserves_consistency [OF assms(2)]
    by (simp add: perform_def snd_PredictDerivative)
next
  case (Call_operator_call x y)
  then show ?thesis
    using Initialize_preserves_consistency [OF assms(2)]
    by (simp add: perform_def snd_operator_call)
next
  case (Call_GetCredibleInterval x)
  then show ?thesis
    using Initialize_preserves_consistency [OF assms(2)]
    by (simp add: perform_def snd_GetCredibleInterval)
next
  case (Call_Save prefix)
  then show ?thesis using assms(2) by (simp add: perform_def snd_Save)
next
  case (Call_Load prefix)
  with assms(1) show ?thesis by (simp add: is_Load_def)
qed

lemma fold_perform_consistency:
  assumes "\<forall>c \<in> set cs. \<not> is_Load c"
    and "m_Initialized (fst st) \<longrightarrow> cache_consistent lib api (fst st)"
  shows "m_Initialized (fst (fold (perform lib api m) cs st))
         \<longrightarrow> cache_consistent lib api (fst (fold (perform lib api m) cs st))"
  using assms
proof (induction cs arbitrary: st)
  case Nil
  then show ?case by simp
next
  case (Cons c cs)
  obtain gp fs where st: "st = (gp, fs)" by (cases st)
  from Cons.prems have nl: "\<not> is_Load c" by simp
  from Cons.prems(2) st have "m_Initialized gp \<longrightarrow> cache_consistent lib api gp" by simp
  from perform_preserves_consistency [OF nl this, of m fs]
  have "m_Initialized (fst (perform lib api m c st))
         \<longrightarrow> cache_consistent lib api (fst (perform lib api m c st))"
    by (simp add: st)
  with Cons.IH [of "perform lib api m c st"] Cons.prems(1) show ?case by simp
qed

lemma flag_set_by_Initialize:
  assumes "\<not> m_Initialized gp" "m_Initialized (fst (perform lib api m c (gp, fs)))"
    and "\<not> is_Load c"
  shows "calls_Initialize c \<and> fst (perform lib api m c (gp, fs)) = snd (Initialize lib api gp)
       \<and> cache_consistent lib api (fst (perform lib api m c (gp, fs)))"
proof -
  from assms(1) have "m_Initialized gp \<longrightarrow> cache_consistent lib api gp" by simp
  from perform_preserves_consistency [OF assms(3) this, of m fs] assms(2)
  have cc: "cache_consistent lib api (fst (perform lib api m c (gp, fs)))" by simp
  have "calls_Initialize c \<and> fst (perform lib api m c (gp, fs)) = snd (Initialize lib api gp)"
  proof (cases c)
    case (Call_AddSample x y)
    with assms(1,2) snd_AddSample_flag [of x y gp] show ?thesis by (simp add: perform_def)
  next
    case (Call_SetSigma sigma)
    with assms(2) show ?thesis by (simp add: perform_def SetSigma_def)
  next
    case Call_DebugOn
    with assms(1,2) show ?thesis by (simp add: perform_def DebugOn_def)
  next
    case (Call_Save prefix)
    with assms(1,2) show ?thesis by (simp add: perform_def snd_Save)
  next
    case (Call_Load prefix)
    with assms(3) show ?thesis by (simp add: is_Load_def)
  qed (simp_all add: perform_def calls_Initialize_def snd_Predict snd_PredictDerivative
         snd_operator_call snd_GetCredibleInterval)
  with cc show ?thesis by simp
qed

text \<open>
  C9, amended. In every engine state reached from the constructor by calls other than
  \<^verbatim>\<open>Load\<close>, a set trained flag implies that the cached core matrix and regression
  vectors are the ones a full recomputation from the current samples, labels, kernel
  and noise gives (the converse fails: the mutators clear the flag whatever they
  change). \<^verbatim>\<open>SetSigma\<close> and every accepted \<^verbatim>\<open>AddSample\<close> clear the flag.
  \<^verbatim>\<open>Initialize()\<close> does nothing when the flag is set, and fails with UntrainedState when
  the flag is clear and the sample or the label storage is empty. A call other than
  \<^verbatim>\<open>Load\<close> that finds the flag clear and leaves it set is one of the operations that
  begin with \<^verbatim>\<open>Initialize()\<close>, leaves the state \<^verbatim>\<open>Initialize()\<close> leaves, and this state
  holds the recomputed matrices.
\<close>

theorem trained_flag_discipline:
  "(\<forall>cs. (\<forall>c \<in> set cs. \<not> is_Load c) \<longrightarrow>
         m_Initialized (fst (fold (perform lib api m) cs (GaussianProcess_new k0, fs)))
         \<longrightarrow> cache_consistent lib api
               (fst (fold (perform lib api m) cs (GaussianProcess_new k0, fs))))
   \<and> \<not> m_Initialized (SetSigma sigma gp)
   \<and> (\<forall>gp'. AddSample x y gp = (Inr (), gp') \<longrightarrow> \<not> m_Initialized gp')
   \<and> (m_Initialized gp \<longrightarrow> Initialize lib api gp = (Inr (), gp))
   \<and> (\<not> m_Initialized gp \<and> (m_SampleVectors gp = [] \<or> m_LabelVectors gp = [])
        \<longrightarrow> Initialize lib api gp = (Inl UntrainedState, gp))
   \<and> (\<forall>c. \<not> is_Load c \<and> \<not> m_Initialized gp
             \<and> m_Initialized (fst (perform lib api m c (gp, fs)))
        \<longrightarrow> calls_Initialize c
          \<and> fst (perform lib api m c (gp, fs)) = snd (Initialize lib api gp)
          \<and> cache_consistent lib api (fst (perform lib api m c (gp, fs))))"
proof (intro conjI allI impI)
  fix cs
  assume "\<forall>c \<in> set cs. \<not> is_Load c"
    and "m_Initialized (fst (fold (perform lib api m) cs (GaussianProcess_new k0, fs)))"
  then show "cache_consistent lib api (fst (fold (perform lib api m) cs (GaussianProcess_new k0, fs)))"
    using fold_perform_consistency [of cs "(GaussianProcess_new k0, fs)" lib api m]
    by (simp add: GaussianProcess_new_def)
next
  show "\<not> m_Initialized (SetSigma sigma gp)" by (simp add: SetSigma_def)
next
  fix gp'
  assume "AddSample x y gp = (Inr (), gp')"
  then show "\<not> m_Initialized gp'"
    by (auto simp: AddSample_def Let_def split: sum.splits)
next
  assume "m_Initialized gp"
  then show "Initialize lib api gp = (Inr (), gp)" by (rule Initialize_trained)
next
  assume "\<not> m_Initialized gp \<and> (m_SampleVectors gp = [] \<or> m_LabelVectors gp = [])"
  then show "Initialize lib api gp = (Inl UntrainedState, gp)"
    by (auto simp: Initialize_def)
next
  fix c
  assume a: "\<not> is_Load c \<and> \<not> m_Initialized gp
             \<and> m_Initialized (fst (perform lib api m c (gp, fs)))"
  then have b: "calls_Initialize c \<and> fst (perform lib api m c (gp, fs)) = snd (Initialize lib api gp)
       \<and> cache_consistent lib api (fst (perform lib api m c (gp, fs)))"
    by (intro flag_set_by_Initialize) simp_all
  from b show "calls_Initialize c" by blast
  from b show "fst (perform lib api m c (gp, fs)) = snd (Initialize lib api gp)" by blast
  from b show "cache_consistent lib api (fst (perform lib api m c (gp, fs)))" by blast
qed

subsection \<open>\<^verbatim>\<open>Save\<close> and the kernel factory\<close>

text \<open>
  C10. \<^verbatim>\<open>Save(prefix)\<close> leaves every member of the engine as it was, whether it
  succeeds or fails; on an untrained engine it fails with UntrainedState and writes
  nothing.
\<close>

theorem Save_frame:
  "fst (snd (Save lib api prefix (gp, fs))) = gp
   \<and> (\<not> m_Initialized gp \<longrightarrow> Save lib api prefix (gp, fs) = (Inl UntrainedState, gp, fs))"
  by (simp add: snd_Save) (simp add: Save_def)

text \<open>
  C4. \<^verbatim>\<open>KernelFactory::Load\<close> with a name that is not in the map, here after
  \<^verbatim>\<open>RegisterKernels()\<close>, dereferences the \<^verbatim>\<open>end()\<close> iterator: there is no
  UnknownKernelType failure.
\<close>

theorem KernelFactory_Load_unregistered:
  "KernelFactory_Load (RegisterKernels demo_api Map.empty) ''UnknownKernel'' [] = Inl UndefinedBehaviour"
  by (simp add: KernelFactory_Load_def RegisterKernels_def AddType_def)

subsection \<open>The instance evaluated\<close>

lemma upt_small: "[0..<2] = [0, 1]" "[1..<2] = [1]" "[2..<2] = []" "[0..<1] = [0]"
  by (simp_all add: upt_rec)

lemma demo_gp_fields [simp]:
  "m_Kernel demo_gp = Some (DemoKernel Gaussian [2])"
  "m_Sigma demo_gp = 1"
  "m_SampleVectors demo_gp = [[1, 0], [0, 1]]"
  "m_LabelVectors demo_gp = [[3], [4]]"
  "m_Initialized demo_gp = False"
  "m_InputDimension demo_gp = 2"
  "m_OutputDimension demo_gp = 1"
  "debug demo_gp = False"
  "m_InvMethod demo_gp = FullPivotLU"
  by (simp_all add: demo_gp_def)

lemma demo_trained_fields [simp]:
  "m_Kernel demo_trained = Some (DemoKernel Gaussian [2])"
  "m_Sigma demo_trained = 1"
  "m_SampleVectors demo_trained = [[1, 0], [0, 1]]"
  "m_LabelVectors demo_trained = [[3], [4]]"
  "m_RegressionVectors demo_trained = Matrix 2 1 [[3 / 2], [2]]"
  "m_CoreMatrix demo_trained = Matrix 2 2 [[1 / 2, 0], [0, 1 / 2]]"
  "m_Initialized demo_trained = True"
  "m_InputDimension demo_trained = 2"
  "m_OutputDimension demo_trained = 1"
  "debug demo_trained = False"
  "m_InvMethod demo_trained = FullPivotLU"
  by (simp_all add: demo_trained_def)

lemma demo_kernel_matrix:
  "ComputeKernelMatrix demo_api demo_gp = Inr (Matrix 2 2 [[1, 0], [0, 1]])"
  by (simp add: ComputeKernelMatrix_def demo_api_def Let_def upt_small resized_def
       mirror_cell_def set_coeff_def dot_def numeral_2_eq_2)

lemma demo_add_noise: "add_noise 1 (Matrix 2 2 [[1, 0], [0, 1]]) = Matrix 2 2 [[2, 0], [0, 2]]"
  by (simp add: add_noise_def upt_small set_coeff_def coeff_def)

lemma demo_inverse_2: "demo_inverse (Matrix 2 2 [[2, 0], [0, 2]]) = Matrix 2 2 [[1 / 2, 0], [0, 1 / 2]]"
  by (simp add: demo_inverse_def coeff_def Let_def)

lemma demo_inverse_cols: "ncols (demo_inverse M) = ncols M"
  by (simp add: demo_inverse_def Let_def)

lemma demo_Initialize: "Initialize demo_lib demo_api demo_gp = (Inr (), demo_trained)"
  by (simp add: Initialize_def ComputeRegressionVectors_def demo_kernel_matrix demo_add_noise
       demo_inverse_2 invert_def demo_lib_def ComputeLabelMatrix_def mat_mul_def col_def dot_def
       Let_def demo_trained_def)

theorem Initialize_FullPivotLU_witness:
  "ComputeKernelMatrix demo_api demo_gp = Inr (Matrix 2 2 [[1, 0], [0, 1]])
   \<and> Initialize demo_lib demo_api demo_gp =
       (Inr (), demo_gp\<lparr> m_CoreMatrix := Matrix 2 2 [[1 / 2, 0], [0, 1 / 2]],
                          m_RegressionVectors := Matrix 2 1 [[3 / 2], [2]],
                          m_Initialized := True \<rparr>)"
proof -
  have inv: "\<forall>M. ncols (eigen_inverse demo_lib M) = ncols M"
    by (simp add: demo_lib_def demo_inverse_cols)
  have lab: "\<forall>y \<in> set (m_LabelVectors demo_gp). length y = 1" by simp
  from Initialize_FullPivotLU [where gp = demo_gp and k = "DemoKernel Gaussian [2]" and d = 1
      and lib = demo_lib and api = demo_api, OF _ _ _ _ _ lab inv]
  obtain K C R where K: "ComputeKernelMatrix demo_api demo_gp = Inr K"
    and C: "C = eigen_inverse demo_lib (add_noise (m_Sigma demo_gp) K)"
    and R: "mat_mul C (Matrix (length (m_LabelVectors demo_gp)) 1 (m_LabelVectors demo_gp)) = Inr R"
    and I: "Initialize demo_lib demo_api demo_gp =
        (Inr (), demo_gp\<lparr> m_CoreMatrix := C, m_RegressionVectors := R, m_Initialized := True \<rparr>)"
    by auto
  from K have K': "K = Matrix 2 2 [[1, 0], [0, 1]]" by (simp add: demo_kernel_matrix)
  from C have C': "C = Matrix 2 2 [[1 / 2, 0], [0, 1 / 2]]"
    by (simp add: K' demo_add_noise demo_lib_def demo_inverse_2)
  from R have R': "R = Matrix 2 1 [[3 / 2], [2]]"
    by (simp add: C' mat_mul_def col_def dot_def)
  from K K' I C' R' show ?thesis by simp
qed

theorem Predict_contract_witness:
  "Predict demo_lib demo_api [1, 1] demo_gp = (Inr [7 / 2], demo_trained)
   \<and> Predict demo_lib demo_api [1] demo_gp = (Inl DimensionMismatch, demo_trained)
   \<and> Predict demo_lib demo_api [1, 1] demo_trained = (Inr [7 / 2], demo_trained)"
proof -
  have t: "Initialize demo_lib demo_api demo_trained = (Inr (), demo_trained)"
    by (simp add: Initialize_def)
  note a = Predict_contract [where gp = demo_gp and gp' = demo_trained and lib = demo_lib
      and api = demo_api and k = "DemoKernel Gaussian [2]", OF _ demo_Initialize]
  note b = Predict_contract [where gp = demo_trained and gp' = demo_trained and lib = demo_lib
      and api = demo_api and k = "DemoKernel Gaussian [2]", OF _ t]
  show ?thesis
    using a [of "[1, 1]"] a [of "[1]"] b [of "[1, 1]"]
    by (simp add: demo_api_def dot_def col_def)
qed

theorem operator_call_and_GetCredibleInterval_witness:
  "operator_call demo_lib demo_api [1, 1] [1, 1] demo_gp = (Inr 1, demo_trained)
   \<and> GetCredibleInterval demo_lib demo_api [1, 1] demo_gp = (Inr 2, demo_trained)
   \<and> operator_call demo_lib demo_api [1, 1] [1, 1]
        (demo_trained\<lparr> m_CoreMatrix := Matrix 2 2 [[3, 0], [0, 3]] \<rparr>)
       = (Inr (- 4), demo_trained\<lparr> m_CoreMatrix := Matrix 2 2 [[3, 0], [0, 3]] \<rparr>)
   \<and> GetCredibleInterval demo_lib demo_api [1, 1]
        (demo_trained\<lparr> m_CoreMatrix := Matrix 2 2 [[3, 0], [0, 3]] \<rparr>)
       = (Inr 0, demo_trained\<lparr> m_CoreMatrix := Matrix 2 2 [[3, 0], [0, 3]] \<rparr>)"
proof -
  let ?g = "demo_trained\<lparr> m_CoreMatrix := Matrix 2 2 [[3, 0], [0, 3]] \<rparr>"
  have t: "Initialize demo_lib demo_api ?g = (Inr (), ?g)"
    by (simp add: Initialize_def)
  from operator_call_and_GetCredibleInterval [where gp = demo_gp and gp' = demo_trained
      and lib = demo_lib and api = demo_api and k = "DemoKernel Gaussian [2]"
      and x = "[1, 1]" and y = "[1, 1]"] demo_Initialize
  have a: "operator_call demo_lib demo_api [1, 1] [1, 1] demo_gp = (Inr 1, demo_trained)
   \<and> GetCredibleInterval demo_lib demo_api [1, 1] demo_gp = (Inr 2, demo_trained)"
    by (simp add: demo_api_def dot_def col_def upt_small)
  from operator_call_and_GetCredibleInterval [where gp = ?g and gp' = ?g
      and lib = demo_lib and api = demo_api and k = "DemoKernel Gaussian [2]"
      and x = "[1, 1]" and y = "[1, 1]"] t
  have b: "operator_call demo_lib demo_api [1, 1] [1, 1] ?g = (Inr (- 4), ?g)
   \<and> GetCredibleInterval demo_lib demo_api [1, 1] ?g = (Inr 0, ?g)"
    by (simp add: demo_api_def dot_def col_def upt_small)
  from a b show ?thesis by simp
qed

lemma SetSigma_demo_trained_consistent:
  "cache_consistent demo_lib demo_api (SetSigma 1 demo_trained)"
proof -
  have "cache_consistent demo_lib demo_api demo_trained"
    using Initialize_recomputes [of demo_gp demo_lib demo_api demo_trained] demo_Initialize
    by simp
  then show ?thesis
    by (rule cache_consistent_cong [rotated -1]) (simp_all add: SetSigma_def)
qed

theorem trained_flag_iff_counterexample:
  "\<not> m_Initialized (SetSigma 1 demo_trained)
   \<and> cache_consistent demo_lib demo_api (SetSigma 1 demo_trained)"
  using SetSigma_demo_trained_consistent by (simp add: SetSigma_def)

lemma demo_calls:
  "fold (perform demo_lib demo_api Map.empty)
     [Call_AddSample [1, 0] [3], Call_AddSample [0, 1] [4], Call_SetSigma 1]
     (GaussianProcess_new (Some (DemoKernel Gaussian [2])), Map.empty)
   = (demo_gp, Map.empty)"
  by (simp add: perform_def AddSample_def CheckInputDimension_def CheckOutputDimension_def
        SetSigma_def GaussianProcess_new_def demo_gp_def Let_def)

theorem trained_flag_discipline_witness:
  "cache_consistent demo_lib demo_api
     (fst (fold (perform demo_lib demo_api Map.empty)
        [Call_AddSample [1, 0] [3], Call_AddSample [0, 1] [4], Call_SetSigma 1, Call_Predict [1, 1]]
        (GaussianProcess_new (Some (DemoKernel Gaussian [2])), Map.empty)))
   \<and> \<not> m_Initialized (SetSigma 1 demo_trained)
   \<and> \<not> m_Initialized (snd (AddSample [1, 1] [5] demo_trained))
   \<and> Initialize demo_lib demo_api demo_trained = (Inr (), demo_trained)
   \<and> Initialize demo_lib demo_api (GaussianProcess_new (Some (DemoKernel Gaussian [2])))
       = (Inl UntrainedState, GaussianProcess_new (Some (DemoKernel Gaussian [2])))
   \<and> calls_Initialize (Call_Predict [1, 1])
   \<and> fst (perform demo_lib demo_api Map.empty (Call_Predict [1, 1]) (demo_gp, Map.empty)) = demo_trained"
proof -
  let ?cs = "[Call_AddSample [1, 0] [3], Call_AddSample [0, 1] [4], Call_SetSigma 1, Call_Predict [1, 1]]"
  let ?new = "GaussianProcess_new (Some (DemoKernel Gaussian [2]))"
  have run: "fold (perform demo_lib demo_api Map.empty) ?cs (?new, Map.empty) = (demo_trained, Map.empty)"
    using demo_calls by (simp add: perform_def snd_Predict demo_Initialize)
  have p: "fst (perform demo_lib demo_api Map.empty (Call_Predict [1, 1]) (demo_gp, Map.empty)) = demo_trained"
    by (simp add: perform_def snd_Predict demo_Initialize)
  have add: "AddSample [1, 1] [5] demo_trained
      = (Inr (), snd (AddSample [1, 1] [5] demo_trained))"
    by (simp add: AddSample_def CheckInputDimension_def CheckOutputDimension_def Let_def)
  note t = trained_flag_discipline [where lib = demo_lib and api = demo_api and m = Map.empty
      and fs = Map.empty and sigma = 1 and x = "[1, 1]" and y = "[5]"]
  from t [where gp = demo_trained and ?k0.0 = "Some (DemoKernel Gaussian [2])"]
  have a: "(\<forall>c \<in> set ?cs. \<not> is_Load c) \<longrightarrow>
         m_Initialized (fst (fold (perform demo_lib demo_api Map.empty) ?cs (?new, Map.empty)))
         \<longrightarrow> cache_consistent demo_lib demo_api
               (fst (fold (perform demo_lib demo_api Map.empty) ?cs (?new, Map.empty)))"
    and b: "\<not> m_Initialized (SetSigma 1 demo_trained)"
    and c: "AddSample [1, 1] [5] demo_trained = (Inr (), snd (AddSample [1, 1] [5] demo_trained))
            \<longrightarrow> \<not> m_Initialized (snd (AddSample [1, 1] [5] demo_trained))"
    and d: "m_Initialized demo_trained \<longrightarrow> Initialize demo_lib demo_api demo_trained = (Inr (), demo_trained)"
    by blast+
  from t [where gp = ?new and ?k0.0 = "Some (DemoKernel Gaussian [2])"]
  have e: "\<not> m_Initialized ?new \<and> (m_SampleVectors ?new = [] \<or> m_LabelVectors ?new = [])
        \<longrightarrow> Initialize demo_lib demo_api ?new = (Inl UntrainedState, ?new)"
    by blast
  from t [where gp = demo_gp and ?k0.0 = "Some (DemoKernel Gaussian [2])"]
  have f: "\<not> is_Load (Call_Predict [1, 1]) \<and> \<not> m_Initialized demo_gp
             \<and> m_Initialized (fst (perform demo_lib demo_api Map.empty (Call_Predict [1, 1]) (demo_gp, Map.empty)))
        \<longrightarrow> calls_Initialize (Call_Predict [1, 1])"
    by blast
  from a [unfolded run] have "cache_consistent demo_lib demo_api demo_trained"
    by (simp add: is_Load_def)
  then have "cache_consistent demo_lib demo_api
               (fst (fold (perform demo_lib demo_api Map.empty) ?cs (?new, Map.empty)))"
    by (simp only: run fst_conv)
  moreover from c add have "\<not> m_Initialized (snd (AddSample [1, 1] [5] demo_trained))" by blast
  moreover from d have "Initialize demo_lib demo_api demo_trained = (Inr (), demo_trained)" by simp
  moreover from e have "Initialize demo_lib demo_api ?new = (Inl UntrainedState, ?new)"
    by (simp add: GaussianProcess_new_def)
  moreover from f have "calls_Initialize (Call_Predict [1, 1])" by (simp add: p is_Load_def)
  ultimately show ?thesis using b p by blast
qed

lemma demo_Save_succeeds:
  "fst (Save demo_lib demo_api ''gp'' (demo_trained, Map.empty)) = Inr ()"
  by (simp add: Save_def columns_matrix_def Let_def)

theorem Save_frame_witness:
  "fst (snd (Save demo_lib demo_api ''gp'' (demo_trained, Map.empty))) = demo_trained
   \<and> fst (Save demo_lib demo_api ''gp'' (demo_trained, Map.empty)) = Inr ()
   \<and> Save demo_lib demo_api ''gp'' (demo_gp, Map.empty) = (Inl UntrainedState, demo_gp, Map.empty)"
  using Save_frame [of demo_lib demo_api "''gp''" demo_trained Map.empty]
    Save_frame [of demo_lib demo_api "''gp''" demo_gp Map.empty] demo_Save_succeeds
  by simp

subsection \<open>\<^verbatim>\<open>Load\<close>\<close>

lemma getline_hash_token:
  assumes "CHR ''#'' \<notin> set t"
  shows "getline CHR ''#'' (Some (t @ CHR ''#'' # r)) = (True, t, Some r)"
proof -
  have tw: "takeWhile (\<lambda>c. c \<noteq> CHR ''#'') (t @ CHR ''#'' # r) = t"
    using assms by (auto simp: takeWhile_tail)
  have dw: "dropWhile (\<lambda>c. c \<noteq> CHR ''#'') (t @ CHR ''#'' # r) = CHR ''#'' # r"
    using assms by (auto simp: dropWhile_append3)
  show ?thesis by (simp add: getline_def tw dw)
qed

lemma getline_nonempty:
  assumes "r \<noteq> []"
  shows "fst (getline d (Some r))"
  using assms by (simp add: getline_def)

lemma found_prefix: "found p (p @ r)"
proof (cases "p @ r")
  case Nil
  then show ?thesis by simp
next
  case (Cons a list)
  have "take (length p) (p @ r) = p" by simp
  then have "take (length p) (a # list) = p" by (simp only: Cons)
  then show ?thesis by (simp only: Cons found.simps simp_thms)
qed

lemma getline_last_token:
  assumes "CHR ''#'' \<notin> set t"
  shows "fst (getline CHR ''#'' (snd (snd (getline CHR ''#'' (Some t))))) = False"
  using assms by (simp add: getline_def)

lemma Load_kernel_SumKernel_split:
  assumes "CHR ''#'' \<notin> set l"
  shows "Load_kernel api m (''SumKernel#'' @ l @ ''#'' @ r) ps =
           (if r = [] then Inl TokenizeFailure
            else dynamic_pointer_cast (is_SumKernel api) (KernelFactory_Load m ''SumKernel'' ps))
       \<and> Load_kernel api m (''SumKernel#'' @ l) ps = Inl TokenizeFailure"
proof -
  have f: "found ''SumKernel'' (''SumKernel'' @ CHR ''#'' # rest)" for rest
    by (rule found_prefix)
  have g1: "getline CHR ''#'' (Some (''SumKernel'' @ CHR ''#'' # rest)) = (True, ''SumKernel'', Some rest)" for rest
    by (rule getline_hash_token) simp
  have g2: "getline CHR ''#'' (Some (l @ CHR ''#'' # r)) = (True, l, Some r)"
    using assms by (rule getline_hash_token)
  have ne: "''SumKernel'' @ CHR ''#'' # rest \<noteq> ''GaussianKernel''"
           "''SumKernel'' @ CHR ''#'' # rest \<noteq> ''PeriodicKernel''" for rest
    by simp_all
  have split: "Load_kernel api m (''SumKernel'' @ CHR ''#'' # rest) ps =
      (case getline CHR ''#'' (Some rest) of (ok2, kernel1, ss2) \<Rightarrow>
         if \<not> ok2 then Inl TokenizeFailure
         else case getline CHR ''#'' ss2 of (ok3, kernel2, ss3) \<Rightarrow>
           if \<not> ok3 then Inl TokenizeFailure
           else dynamic_pointer_cast (is_SumKernel api) (KernelFactory_Load m ''SumKernel'' ps))" for rest
    unfolding Load_kernel_def by (simp only: ne f g1 if_True if_False simp_thms split)
  have "Load_kernel api m (''SumKernel'' @ CHR ''#'' # (l @ CHR ''#'' # r)) ps =
           (if r = [] then Inl TokenizeFailure
            else dynamic_pointer_cast (is_SumKernel api) (KernelFactory_Load m ''SumKernel'' ps))"
    unfolding split g2 by (cases r) (simp_all add: getline_def split: prod.splits)
  then have a: "Load_kernel api m (''SumKernel#'' @ l @ ''#'' @ r) ps =
           (if r = [] then Inl TokenizeFailure
            else dynamic_pointer_cast (is_SumKernel api) (KernelFactory_Load m ''SumKernel'' ps))"
    by simp
  have "Load_kernel api m (''SumKernel'' @ CHR ''#'' # l) ps = Inl TokenizeFailure"
    unfolding split using assms by (simp add: getline_def split: prod.splits)
  then have b: "Load_kernel api m (''SumKernel#'' @ l) ps = Inl TokenizeFailure" by simp
  from a b show ?thesis by (rule conjI)
qed

text \<open>
  C3, amended. A kernel type \<open>SumKernel#l#r\<close> (with no \<open>#\<close> in \<open>l\<close>) read by \<^verbatim>\<open>Load\<close> is
  cut at \<open>#\<close> into a first token and two more tokens, which have to be there: with
  an empty \<open>r\<close>, or with no second \<open>#\<close> at all, \<^verbatim>\<open>Load\<close> fails to tokenize. Then the
  first token alone, \<open>SumKernel\<close>, is looked up in the factory with the whole
  parameter list; the two sub-tags are not looked up.
\<close>

theorem Load_kernel_SumKernel_tag:
  assumes "CHR ''#'' \<notin> set l"
  shows "Load_kernel api m (''SumKernel#'' @ l @ ''#'' @ r) ps =
           (if r = [] then Inl TokenizeFailure
            else dynamic_pointer_cast (is_SumKernel api) (KernelFactory_Load m ''SumKernel'' ps))
       \<and> Load_kernel api m (''SumKernel#'' @ l) ps = Inl TokenizeFailure"
  using assms by (rule Load_kernel_SumKernel_split)

lemma demo_api_fields [simp]:
  "evaluate demo_api = (\<lambda>k x y. dot x y)"
  "GetParameters demo_api = kernel_params"
  "ToString demo_api = (\<lambda>k. demo_tag (kernel_class k))"
  "kernel_differs demo_api = (\<lambda>a b. a \<noteq> b)"
  "GaussianKernel_Load demo_api = (\<lambda>ps. Inr (DemoKernel Gaussian ps))"
  "PeriodicKernel_Load demo_api = (\<lambda>ps. Inr (DemoKernel Periodic ps))"
  "SumKernel_Load demo_api = (\<lambda>ps. Inr (DemoKernel Sum ps))"
  "ProductKernel_Load demo_api = (\<lambda>ps. Inr (DemoKernel Product ps))"
  "is_GaussianKernel demo_api = (\<lambda>k. kernel_class k = Gaussian)"
  "is_PeriodicKernel demo_api = (\<lambda>k. kernel_class k = Periodic)"
  "is_SumKernel demo_api = (\<lambda>k. kernel_class k = Sum)"
  by (simp_all add: demo_api_def)

lemma demo_registry:
  "RegisterKernels demo_api Map.empty ''SumKernel'' = Some (SumKernel_Load demo_api)"
  "RegisterKernels demo_api Map.empty ''NoSuchKernel'' = None"
  "RegisterKernels demo_api Map.empty ''AlsoMissing'' = None"
  by (simp_all add: RegisterKernels_def AddType_def)

theorem Load_kernel_SumKernel_tag_witness:
  "Load_kernel demo_api (RegisterKernels demo_api Map.empty)
     ''SumKernel#GaussianKernel#PeriodicKernel'' [1, 2] = Inr (Some (DemoKernel Sum [1, 2]))
   \<and> Load_kernel demo_api (RegisterKernels demo_api Map.empty)
     ''SumKernel#GaussianKernel'' [1, 2] = Inl TokenizeFailure"
  using Load_kernel_SumKernel_tag [of "''GaussianKernel''" demo_api
      "RegisterKernels demo_api Map.empty" "''PeriodicKernel''" "[1, 2]"]
  by (simp add: dynamic_pointer_cast_def KernelFactory_Load_def demo_registry)

theorem Load_kernel_composite_counterexample:
  "Load_kernel demo_api (RegisterKernels demo_api Map.empty)
     ''ProductKernel#GaussianKernel#PeriodicKernel'' [1, 2] = Inl UnknownKernelType
   \<and> RegisterKernels demo_api Map.empty ''NoSuchKernel'' = None
   \<and> RegisterKernels demo_api Map.empty ''AlsoMissing'' = None
   \<and> Load_kernel demo_api (RegisterKernels demo_api Map.empty)
     ''SumKernel#NoSuchKernel#AlsoMissing'' [1, 2] = Inr (Some (DemoKernel Sum [1, 2]))"
proof -
  have "\<not> found ''SumKernel'' ''ProductKernel#GaussianKernel#PeriodicKernel''"
    by simp
  then have p: "Load_kernel demo_api (RegisterKernels demo_api Map.empty)
     ''ProductKernel#GaussianKernel#PeriodicKernel'' [1, 2] = Inl UnknownKernelType"
    by (simp add: Load_kernel_def)
  have s: "Load_kernel demo_api (RegisterKernels demo_api Map.empty)
     ''SumKernel#NoSuchKernel#AlsoMissing'' [1, 2] = Inr (Some (DemoKernel Sum [1, 2]))"
    by (simp add: Load_kernel_def getline_def dynamic_pointer_cast_def KernelFactory_Load_def
          demo_registry)
  from p s demo_registry show ?thesis by simp
qed

lemma read_kernel_parameters_None:
  "read_kernel_parameters lib n None load ps = (False, ps, None) \<or>
   (n = 0 \<and> read_kernel_parameters lib n None load ps = (load, ps, None))"
  by (induction n arbitrary: load) (auto simp: stream_extract_def)

lemma read_parameter_line_frame:
  assumes "read_parameter_line lib gp line = (r, gp')"
  shows "m_Kernel gp' = m_Kernel gp \<and> m_Initialized gp' = m_Initialized gp
       \<and> m_InvMethod gp' = m_InvMethod gp
       \<and> m_RegressionVectors gp' = m_RegressionVectors gp \<and> m_CoreMatrix gp' = m_CoreMatrix gp
       \<and> m_SampleVectors gp' = m_SampleVectors gp \<and> m_LabelVectors gp' = m_LabelVectors gp"
  using assms
  by (auto simp: read_parameter_line_def Let_def split: prod.splits if_splits)

lemma read_parameter_file_frame:
  assumes "read_parameter_file lib gp content = (r, gp')"
  shows "m_Kernel gp' = m_Kernel gp \<and> m_Initialized gp' = m_Initialized gp
       \<and> m_InvMethod gp' = m_InvMethod gp
       \<and> m_RegressionVectors gp' = m_RegressionVectors gp \<and> m_CoreMatrix gp' = m_CoreMatrix gp
       \<and> m_SampleVectors gp' = m_SampleVectors gp \<and> m_LabelVectors gp' = m_LabelVectors gp"
proof (cases "content = []")
  case True
  with assms show ?thesis by (simp add: read_parameter_file_def)
next
  case False
  with assms show ?thesis
    using read_parameter_line_frame [of lib gp _ r gp'] by (simp add: read_parameter_file_def)
qed

text \<open>
  C2, amended. When the five files exist, the parameter file is read without error
  and its kernel type is neither \<open>GaussianKernel\<close> nor \<open>PeriodicKernel\<close> and does not
  contain \<open>SumKernel\<close>, \<^verbatim>\<open>Load\<close> fails with UnknownKernelType. The kernel, the trained
  flag and the inversion strategy are then as before the call; the regression
  vectors, the core matrix, the samples and the labels are the contents of the files,
  and the noise, the dimensions and the debug flag the values read from the
  parameter file.
\<close>

theorem Load_unknown_kernel_type:
  assumes files: "regular_file fs (prefix @ ''-RegressionVectors.txt'') = Some rv"
      "regular_file fs (prefix @ ''-CoreMatrix.txt'') = Some cm"
      "regular_file fs (prefix @ ''-SampleVectors.txt'') = Some sv"
      "regular_file fs (prefix @ ''-LabelVectors.txt'') = Some lv"
      "regular_file fs (prefix @ ''-ParameterFile.txt'') = Some pf"
    and parse: "read_parameter_file lib
         (gp\<lparr> m_RegressionVectors := ReadMatrix lib rv, m_CoreMatrix := ReadMatrix lib cm,
              m_SampleVectors := map (col (ReadMatrix lib sv)) [0..<ncols (ReadMatrix lib sv)],
              m_LabelVectors := map (col (ReadMatrix lib lv)) [0..<ncols (ReadMatrix lib lv)] \<rparr>) pf
         = (Inr (kernel_type, ps), gp')"
    and tag: "kernel_type \<noteq> ''GaussianKernel''" "kernel_type \<noteq> ''PeriodicKernel''"
      "\<not> found ''SumKernel'' kernel_type"
  shows "Load lib api m prefix fs gp = (Inl UnknownKernelType, gp')
       \<and> m_Kernel gp' = m_Kernel gp \<and> m_Initialized gp' = m_Initialized gp
       \<and> m_InvMethod gp' = m_InvMethod gp
       \<and> m_RegressionVectors gp' = ReadMatrix lib rv \<and> m_CoreMatrix gp' = ReadMatrix lib cm
       \<and> m_SampleVectors gp' = map (col (ReadMatrix lib sv)) [0..<ncols (ReadMatrix lib sv)]
       \<and> m_LabelVectors gp' = map (col (ReadMatrix lib lv)) [0..<ncols (ReadMatrix lib lv)]"
proof -
  have k: "Load_kernel api m kernel_type ps = Inl UnknownKernelType"
    using tag by (simp add: Load_kernel_def)
  have l: "Load lib api m prefix fs gp = (Inl UnknownKernelType, gp')"
    by (simp add: Load_def files Let_def parse k)
  from read_parameter_file_frame [OF parse] l show ?thesis by simp
qed


lemma demo_lib_fields [simp]:
  "eigen_inverse demo_lib = demo_inverse"
  "matrix_text demo_lib = demo_matrix_text"
  "text_matrix demo_lib = demo_text_matrix"
  "show_scalar demo_lib = (\<lambda>x. show_nat (nat \<lfloor>x\<rfloor>))"
  "show_unsigned demo_lib = show_nat"
  "show_bool demo_lib = (\<lambda>b. if b then ''1'' else ''0'')"
  "conv_scalar demo_lib = demo_conv_scalar"
  "conv_unsigned demo_lib = demo_conv_unsigned"
  "conv_bool demo_lib = demo_conv_bool"
  by (simp_all add: demo_lib_def)

lemma demo_files_lookup:
  "regular_file demo_files (''gp'' @ ''-RegressionVectors.txt'') = Some ''2 1 3 4''"
  "regular_file demo_files (''gp'' @ ''-CoreMatrix.txt'') = Some ''2 2 1 0 0 1''"
  "regular_file demo_files (''gp'' @ ''-SampleVectors.txt'') = Some ''2 2 1 0 0 1''"
  "regular_file demo_files (''gp'' @ ''-LabelVectors.txt'') = Some ''1 2 3 4''"
  "regular_file demo_files (''gp'' @ ''-ParameterFile.txt'') = Some ''UnknownKernel 1 2 5 2 1 1''"
  by (simp_all add: regular_file_def demo_files_def)

lemma demo_files_matrices:
  "ReadMatrix demo_lib ''2 1 3 4'' = Matrix 2 1 [[3], [4]]"
  "ReadMatrix demo_lib ''2 2 1 0 0 1'' = Matrix 2 2 [[1, 0], [0, 1]]"
  "ReadMatrix demo_lib ''1 2 3 4'' = Matrix 1 2 [[3, 4]]"
  by (simp_all add: ReadMatrix_def demo_text_matrix_def read_nat_def digit_val_def upt_small)

lemma demo_parameter_file:
  "read_parameter_file demo_lib gp ''UnknownKernel 1 2 5 2 1 1''
     = (Inr (''UnknownKernel'', [2]),
        gp\<lparr> m_Sigma := 5, m_InputDimension := 2, m_OutputDimension := 1, debug := True \<rparr>)"
  by (simp add: read_parameter_file_def read_parameter_line_def stream_extract_def isspace_def
        conv_string_def demo_conv_unsigned_def demo_conv_scalar_def demo_conv_bool_def
        isdigit_def read_nat_def digit_val_def Let_def)

lemma demo_Load_unknown:
  "Load demo_lib demo_api (RegisterKernels demo_api Map.empty) ''gp'' demo_files
     (GaussianProcess_new (Some (DemoKernel Gaussian [2])))
   = (Inl UnknownKernelType,
      (GaussianProcess_new (Some (DemoKernel Gaussian [2])))
        \<lparr> m_RegressionVectors := Matrix 2 1 [[3], [4]],
          m_CoreMatrix := Matrix 2 2 [[1, 0], [0, 1]],
          m_SampleVectors := [[1, 0], [0, 1]], m_LabelVectors := [[3], [4]],
          m_Sigma := 5, m_InputDimension := 2, m_OutputDimension := 1, debug := True \<rparr>)"
  by (simp add: Load_def regular_file_def demo_files_def demo_files_matrices col_def upt_small
        demo_parameter_file Load_kernel_def Let_def)

theorem Load_unknown_kernel_type_counterexample:
  "fst (Load demo_lib demo_api (RegisterKernels demo_api Map.empty) ''gp'' demo_files
          (GaussianProcess_new (Some (DemoKernel Gaussian [2])))) = Inl UnknownKernelType
   \<and> m_Sigma (GaussianProcess_new (Some (DemoKernel Gaussian [2]))) = 0
   \<and> m_Sigma (snd (Load demo_lib demo_api (RegisterKernels demo_api Map.empty) ''gp'' demo_files
          (GaussianProcess_new (Some (DemoKernel Gaussian [2]))))) = 5
   \<and> m_SampleVectors (GaussianProcess_new (Some (DemoKernel Gaussian [2]))) = []
   \<and> m_SampleVectors (snd (Load demo_lib demo_api (RegisterKernels demo_api Map.empty) ''gp''
          demo_files (GaussianProcess_new (Some (DemoKernel Gaussian [2]))))) = [[1, 0], [0, 1]]"
  by (simp add: demo_Load_unknown) (simp add: GaussianProcess_new_def)

theorem Load_unknown_kernel_type_witness:
  "Load demo_lib demo_api (RegisterKernels demo_api Map.empty) ''gp'' demo_files
     (GaussianProcess_new (Some (DemoKernel Gaussian [2])))
   = (Inl UnknownKernelType,
      (GaussianProcess_new (Some (DemoKernel Gaussian [2])))
        \<lparr> m_RegressionVectors := Matrix 2 1 [[3], [4]],
          m_CoreMatrix := Matrix 2 2 [[1, 0], [0, 1]],
          m_SampleVectors := [[1, 0], [0, 1]], m_LabelVectors := [[3], [4]],
          m_Sigma := 5, m_InputDimension := 2, m_OutputDimension := 1, debug := True \<rparr>)"
proof -
  let ?new = "GaussianProcess_new (Some (DemoKernel Gaussian [2]))"
  let ?g4 = "?new\<lparr> m_RegressionVectors := ReadMatrix demo_lib ''2 1 3 4'',
              m_CoreMatrix := ReadMatrix demo_lib ''2 2 1 0 0 1'',
              m_SampleVectors := map (col (ReadMatrix demo_lib ''2 2 1 0 0 1''))
                                   [0..<ncols (ReadMatrix demo_lib ''2 2 1 0 0 1'')],
              m_LabelVectors := map (col (ReadMatrix demo_lib ''1 2 3 4''))
                                  [0..<ncols (ReadMatrix demo_lib ''1 2 3 4'')] \<rparr>"
  have parse: "read_parameter_file demo_lib ?g4 ''UnknownKernel 1 2 5 2 1 1''
     = (Inr (''UnknownKernel'', [2]),
        ?g4\<lparr> m_Sigma := 5, m_InputDimension := 2, m_OutputDimension := 1, debug := True \<rparr>)"
    by (rule demo_parameter_file)
  have nf: "\<not> found ''SumKernel'' ''UnknownKernel''" by simp
  from Load_unknown_kernel_type [OF demo_files_lookup parse _ _ nf,
      where api = demo_api and m = "RegisterKernels demo_api Map.empty"]
  show ?thesis
    by (simp add: demo_files_matrices col_def upt_small)
qed

subsection \<open>\<^verbatim>\<open>Save\<close> followed by \<^verbatim>\<open>Load\<close>\<close>

lemma stream_extract_token:
  assumes "token t" "conv t = (v, Some [])" "rest = [] \<or> isspace (hd rest)"
  shows "stream_extract conv target (Some (t @ rest)) = (v, Some rest)"
proof -
  from assms(1) obtain c cs where t: "t = c # cs" and c: "\<not> isspace c"
    and all: "\<forall>x \<in> set t. \<not> isspace x"
    by (cases t) (auto simp: token_def)
  have dw: "dropWhile isspace (t @ rest) = t @ rest"
    using c by (simp add: t)
  have tw0: "takeWhile (\<lambda>x. \<not> isspace x) rest = []"
    using assms(3) by (cases rest) auto
  have dw0: "dropWhile (\<lambda>x. \<not> isspace x) rest = rest"
    using assms(3) by (cases rest) auto
  have tw: "takeWhile (\<lambda>x. \<not> isspace x) (t @ rest) = t"
    using all by (simp add: takeWhile_append2 tw0)
  have dr: "dropWhile (\<lambda>x. \<not> isspace x) (t @ rest) = rest"
    using all by (simp add: dropWhile_append2 dw0)
  have ne: "t @ rest \<noteq> []" by (simp add: t)
  show ?thesis
    by (simp only: stream_extract_def option.case dw Let_def ne if_False tw dr assms(2)
          prod.case append_Nil)
qed

lemma stream_extract_spaced_token:
  assumes "token t" "conv t = (v, Some [])" "rest = [] \<or> isspace (hd rest)"
  shows "stream_extract conv target (Some (CHR '' '' # t @ rest)) = (v, Some rest)"
proof -
  have "stream_extract conv target (Some (CHR '' '' # t @ rest))
        = stream_extract conv target (Some (t @ rest))"
    by (simp add: stream_extract_def isspace_def)
  with stream_extract_token [where conv = conv and target = target, OF assms]
  show ?thesis by simp
qed

lemma read_kernel_parameters_written:
  assumes "\<forall>v \<in> set ps. reads_back (show_scalar lib) (conv_scalar lib) v"
  shows "read_kernel_parameters lib (length ps)
           (Some (CHR '' '' # concat (map (\<lambda>p. show_scalar lib p @ '' '') ps) @ tail)) load acc
         = (load, acc @ ps, Some (CHR '' '' # tail))"
  using assms
proof (induction ps arbitrary: acc)
  case Nil
  then show ?case by simp
next
  case (Cons p ps)
  from Cons.prems have rb: "token (show_scalar lib p)"
    "conv_scalar lib (show_scalar lib p) = (p, Some [])"
    by (simp_all add: reads_back_def)
  let ?rest = "CHR '' '' # concat (map (\<lambda>p. show_scalar lib p @ '' '') ps) @ tail"
  have sp: "?rest = [] \<or> isspace (hd ?rest)" by (simp add: isspace_def)
  have ex: "stream_extract (conv_scalar lib) 0
              (Some (CHR '' '' # show_scalar lib p @ ?rest)) = (p, Some ?rest)"
    using rb sp by (rule stream_extract_spaced_token)
  have "read_kernel_parameters lib (length (p # ps))
           (Some (CHR '' '' # concat (map (\<lambda>p. show_scalar lib p @ '' '') (p # ps)) @ tail)) load acc
        = read_kernel_parameters lib (length ps) (Some ?rest) load (acc @ [p])"
    by (simp add: ex)
  also have "\<dots> = (load, (acc @ [p]) @ ps, Some (CHR '' '' # tail))"
    using Cons.prems by (intro Cons.IH) simp
  finally show ?case by simp
qed

lemma token_no_newline: "token t \<Longrightarrow> CHR 0x0A \<notin> set t"
  by (auto simp: token_def isspace_def)

lemma read_parameter_line_written:
  assumes tag: "token tag"
    and n: "reads_back (show_unsigned lib) (conv_unsigned lib) (length ps)"
    and ps: "\<forall>v \<in> set ps. reads_back (show_scalar lib) (conv_scalar lib) v"
    and sigma: "reads_back (show_scalar lib) (conv_scalar lib) sigma"
    and din: "reads_back (show_unsigned lib) (conv_unsigned lib) din"
    and dout: "reads_back (show_unsigned lib) (conv_unsigned lib) dout"
    and dbg: "reads_back (show_bool lib) (conv_bool lib) dbg"
  shows "read_parameter_line lib gp
           (tag @ CHR '' '' # show_unsigned lib (length ps) @ CHR '' '' #
              concat (map (\<lambda>p. show_scalar lib p @ '' '') ps) @
              show_scalar lib sigma @ CHR '' '' # show_unsigned lib din @ CHR '' '' #
              show_unsigned lib dout @ CHR '' '' # show_bool lib dbg)
         = (Inr (tag, ps),
            gp\<lparr> m_Sigma := sigma, m_InputDimension := din, m_OutputDimension := dout,
                debug := dbg \<rparr>)"
proof -
  let ?t4 = "show_bool lib dbg"
  let ?t3 = "show_unsigned lib dout @ CHR '' '' # ?t4"
  let ?t2 = "show_unsigned lib din @ CHR '' '' # ?t3"
  let ?t1 = "show_scalar lib sigma @ CHR '' '' # ?t2"
  let ?pp = "concat (map (\<lambda>p. show_scalar lib p @ '' '') ps)"
  let ?t0 = "show_unsigned lib (length ps) @ CHR '' '' # ?pp @ ?t1"
  have sp: "CHR '' '' # r = [] \<or> isspace (hd (CHR '' '' # r))" for r
    by (simp add: isspace_def)
  have e1: "stream_extract conv_string [] (Some (tag @ CHR '' '' # ?t0)) = (tag, Some (CHR '' '' # ?t0))"
    using tag _ sp by (rule stream_extract_token) (simp add: conv_string_def)
  have e2: "stream_extract (conv_unsigned lib) 0 (Some (CHR '' '' # ?t0))
              = (length ps, Some (CHR '' '' # ?pp @ ?t1))"
    using n stream_extract_spaced_token [where t = "show_unsigned lib (length ps)"
        and conv = "conv_unsigned lib" and rest = "CHR '' '' # ?pp @ ?t1" and v = "length ps"] sp
    by (simp add: reads_back_def)
  have e3: "read_kernel_parameters lib (length ps) (Some (CHR '' '' # ?pp @ ?t1)) True []
              = (True, ps, Some (CHR '' '' # ?t1))"
    using read_kernel_parameters_written [OF ps, where tail = ?t1 and load = True and acc = "[]"]
    by simp
  have e4: "stream_extract (conv_scalar lib) (m_Sigma gp) (Some (CHR '' '' # ?t1))
              = (sigma, Some (CHR '' '' # ?t2))"
    using sigma stream_extract_spaced_token [where t = "show_scalar lib sigma"
        and conv = "conv_scalar lib" and rest = "CHR '' '' # ?t2" and v = sigma] sp
    by (simp add: reads_back_def)
  have e5: "stream_extract (conv_unsigned lib) (m_InputDimension gp) (Some (CHR '' '' # ?t2))
              = (din, Some (CHR '' '' # ?t3))"
    using din stream_extract_spaced_token [where t = "show_unsigned lib din"
        and conv = "conv_unsigned lib" and rest = "CHR '' '' # ?t3" and v = din] sp
    by (simp add: reads_back_def)
  have e6: "stream_extract (conv_unsigned lib) (m_OutputDimension gp) (Some (CHR '' '' # ?t3))
              = (dout, Some (CHR '' '' # ?t4))"
    using dout stream_extract_spaced_token [where t = "show_unsigned lib dout"
        and conv = "conv_unsigned lib" and rest = "CHR '' '' # ?t4" and v = dout] sp
    by (simp add: reads_back_def)
  have e7: "stream_extract (conv_bool lib) (debug gp) (Some (CHR '' '' # ?t4)) = (dbg, Some [])"
    using dbg stream_extract_spaced_token [where t = "show_bool lib dbg"
        and conv = "conv_bool lib" and rest = "[]" and v = dbg]
    by (simp add: reads_back_def)
  show ?thesis
    unfolding read_parameter_line_def
    by (simp add: e1 e2 e3 e4 e5 e6 e7)
qed


lemma read_parameter_file_written:
  assumes tag: "token tag"
    and n: "reads_back (show_unsigned lib) (conv_unsigned lib) (length ps)"
    and ps: "\<forall>v \<in> set ps. reads_back (show_scalar lib) (conv_scalar lib) v"
    and sigma: "reads_back (show_scalar lib) (conv_scalar lib) sigma"
    and din: "reads_back (show_unsigned lib) (conv_unsigned lib) din"
    and dout: "reads_back (show_unsigned lib) (conv_unsigned lib) dout"
    and dbg: "reads_back (show_bool lib) (conv_bool lib) dbg"
  shows "read_parameter_file lib gp
           (tag @ CHR '' '' # show_unsigned lib (length ps) @ CHR '' '' #
              concat (map (\<lambda>p. show_scalar lib p @ '' '') ps) @
              show_scalar lib sigma @ CHR '' '' # show_unsigned lib din @ CHR '' '' #
              show_unsigned lib dout @ CHR '' '' # show_bool lib dbg)
         = (Inr (tag, ps),
            gp\<lparr> m_Sigma := sigma, m_InputDimension := din, m_OutputDimension := dout,
                debug := dbg \<rparr>)"
proof -
  let ?line = "tag @ CHR '' '' # show_unsigned lib (length ps) @ CHR '' '' #
              concat (map (\<lambda>p. show_scalar lib p @ '' '') ps) @
              show_scalar lib sigma @ CHR '' '' # show_unsigned lib din @ CHR '' '' #
              show_unsigned lib dout @ CHR '' '' # show_bool lib dbg"
  have pp: "CHR 0x0A \<notin> set (concat (map (\<lambda>p. show_scalar lib p @ '' '') ps))"
    using ps by (auto simp: reads_back_def dest: token_no_newline)
  have "CHR 0x0A \<notin> set ?line"
    using tag n sigma din dout dbg pp
    by (auto simp: reads_back_def dest: token_no_newline)
  then have tw: "takeWhile (\<lambda>c. c \<noteq> CHR 0x0A) ?line = ?line"
    by (simp only: takeWhile_eq_all_conv) blast
  have ne: "?line \<noteq> []" using tag by (simp add: token_def)
  show ?thesis
    unfolding read_parameter_file_def tw
    using read_parameter_line_written [OF assms, of gp] ne by simp
qed

lemma columns_matrix_ok:
  assumes "vs \<noteq> []" "\<forall>v \<in> set vs. length v = length (hd vs)"
  shows "columns_matrix vs =
           Inr (Matrix (length (hd vs)) (length vs)
                 (map (\<lambda>r. map (\<lambda>v. v ! r) vs) [0..<length (hd vs)]))"
  using assms by (cases vs) (auto simp: columns_matrix_def)

lemma columns_back:
  assumes "\<forall>v \<in> set vs. length v = d"
  shows "map (col (Matrix d (length vs) (map (\<lambda>r. map (\<lambda>v. v ! r) vs) [0..<d]))) [0..<length vs] = vs"
proof (rule nth_equalityI)
  show "length (map (col (Matrix d (length vs) (map (\<lambda>r. map (\<lambda>v. v ! r) vs) [0..<d])))
          [0..<length vs]) = length vs"
    by simp
next
  fix j
  assume "j < length (map (col (Matrix d (length vs) (map (\<lambda>r. map (\<lambda>v. v ! r) vs) [0..<d])))
          [0..<length vs])"
  then have j: "j < length vs" by simp
  with assms have len: "length (vs ! j) = d" by simp
  have "col (Matrix d (length vs) (map (\<lambda>r. map (\<lambda>v. v ! r) vs) [0..<d])) j
          = map (\<lambda>r. vs ! j ! r) [0..<d]"
    using j by (simp add: col_def)
  also have "\<dots> = map ((!) (vs ! j)) [0..<length (vs ! j)]" by (simp only: len)
  also have "\<dots> = vs ! j" by (rule map_nth)
  finally show "map (col (Matrix d (length vs) (map (\<lambda>r. map (\<lambda>v. v ! r) vs) [0..<d])))
          [0..<length vs] ! j = vs ! j"
    using j by simp
qed

lemma registry_lookup:
  "RegisterKernels api Map.empty ''GaussianKernel'' = Some (GaussianKernel_Load api)"
  "RegisterKernels api Map.empty ''PeriodicKernel'' = Some (PeriodicKernel_Load api)"
  "RegisterKernels api Map.empty ''SumKernel'' = Some (SumKernel_Load api)"
  "RegisterKernels api Map.empty ''ProductKernel'' = Some (ProductKernel_Load api)"
  by (simp_all add: RegisterKernels_def AddType_def)

lemma Load_kernel_reloads:
  assumes "kernel_reloads api k k'"
  shows "Load_kernel api (RegisterKernels api Map.empty) (ToString api k) (GetParameters api k)
           = Inr (Some k')"
    and "token (ToString api k)"
proof -
  let ?m = "RegisterKernels api Map.empty"
  let ?ps = "GetParameters api k"
  from assms consider
      (G) "ToString api k = ''GaussianKernel''" "GaussianKernel_Load api ?ps = Inr k'"
          "is_GaussianKernel api k'"
    | (P) "ToString api k = ''PeriodicKernel''" "PeriodicKernel_Load api ?ps = Inr k'"
          "is_PeriodicKernel api k'"
    | (S) a b where "a \<in> {''GaussianKernel'', ''PeriodicKernel''}"
          "b \<in> {''GaussianKernel'', ''PeriodicKernel''}"
          "ToString api k = ''SumKernel#'' @ a @ ''#'' @ b"
          "SumKernel_Load api ?ps = Inr k'" "is_SumKernel api k'"
    unfolding kernel_reloads_def by blast
  then have "Load_kernel api ?m (ToString api k) ?ps = Inr (Some k') \<and> token (ToString api k)"
  proof cases
    case G
    then show ?thesis
      by (simp add: Load_kernel_def KernelFactory_Load_def registry_lookup
            dynamic_pointer_cast_def token_def isspace_def)
  next
    case P
    then show ?thesis
      by (simp add: Load_kernel_def KernelFactory_Load_def registry_lookup
            dynamic_pointer_cast_def token_def isspace_def)
  next
    case S
    from S(1) have a: "CHR ''#'' \<notin> set a" "token a" by (auto simp: token_def isspace_def)
    from S(2) have b: "b \<noteq> []" "token b" by (auto simp: token_def isspace_def)
    have "Load_kernel api ?m (''SumKernel#'' @ a @ ''#'' @ b) ?ps
            = dynamic_pointer_cast (is_SumKernel api) (KernelFactory_Load ?m ''SumKernel'' ?ps)"
      using Load_kernel_SumKernel_split [OF a(1), of api ?m b ?ps] b(1) by simp
    moreover have "token (''SumKernel#'' @ a @ ''#'' @ b)"
      using a(2) b(2) by (auto simp: token_def isspace_def)
    ultimately show ?thesis
      using S(3-5) by (simp add: KernelFactory_Load_def registry_lookup dynamic_pointer_cast_def)
  qed
  then show "Load_kernel api ?m (ToString api k) ?ps = Inr (Some k')"
    and "token (ToString api k)"
    by simp_all
qed

lemma sq_norm_self:
  "sum_list (map ((\<lambda>x. x * x) \<circ> (\<lambda>(x, y). x - y)) (zip r r)) = (0::real)"
  by (induction r) simp_all

lemma sq_norm_rows_self: "sq_norm_rows (map2 (map2 (-)) E E) = 0"
  by (induction E) (simp_all add: sq_norm_rows_def sq_norm_self)

lemma diff_norm_positive_self: "diff_norm_positive A A = Inr False"
  by (simp add: diff_norm_positive_def sq_norm_rows_self)

lemma any_vector_differs_self: "any_vector_differs vs vs = Inr False"
  by (induction vs) (simp_all add: vec_diff_norm_positive_def sq_norm_self)


text \<open>
  C5. For a trained engine with at least one sample and label, vectors of one size,
  and a kernel of a registered atomic class or a sum of two of them that its class
  rebuilds from its parameters: \<^verbatim>\<open>Save(prefix)\<close> succeeds, and \<^verbatim>\<open>Load(prefix)\<close> on any
  engine then succeeds and leaves an engine that \<^verbatim>\<open>operator==\<close> finds equal to the
  saved one, provided that every matrix, scalar, size and flag that \<^verbatim>\<open>Save\<close> writes
  reads back from its text as the value written. For the scalars of the parameter
  file this rests on the precision that \<^verbatim>\<open>Save\<close> sets on the stream,
  \<^verbatim>\<open>digits10 + 1\<close> significant digits, and rounding is not part of this model.
\<close>

theorem Save_Load_roundtrip:
  assumes trained: "m_Initialized gp"
    and kern: "m_Kernel gp = Some k"
    and reload: "kernel_reloads api k k'"
    and samples: "m_SampleVectors gp \<noteq> []"
      "\<forall>v \<in> set (m_SampleVectors gp). length v = length (hd (m_SampleVectors gp))"
    and labels: "m_LabelVectors gp \<noteq> []"
      "\<forall>v \<in> set (m_LabelVectors gp). length v = length (hd (m_LabelVectors gp))"
    and matrices: "\<forall>M. M = m_RegressionVectors gp \<or> M = m_CoreMatrix gp
        \<or> columns_matrix (m_SampleVectors gp) = Inr M
        \<or> columns_matrix (m_LabelVectors gp) = Inr M
        \<longrightarrow> text_matrix lib (matrix_text lib M) = M"
    and scalars: "\<forall>v \<in> set (m_Sigma gp # GetParameters api k).
        reads_back (show_scalar lib) (conv_scalar lib) v"
    and unsigneds:
      "\<forall>n \<in> {length (GetParameters api k), m_InputDimension gp, m_OutputDimension gp}.
        reads_back (show_unsigned lib) (conv_unsigned lib) n"
    and flag: "reads_back (show_bool lib) (conv_bool lib) (debug gp)"
  shows "\<exists>fs' gp'. Save lib api prefix (gp, fs) = (Inr (), gp, fs')
           \<and> Load lib api (RegisterKernels api Map.empty) prefix fs' gp0 = (Inr (), gp')
           \<and> operator_eq api gp gp' = Inr True"
proof -
  let ?S = "m_SampleVectors gp"
  let ?L = "m_LabelVectors gp"
  let ?R = "m_RegressionVectors gp"
  let ?C = "m_CoreMatrix gp"
  let ?X = "Matrix (length (hd ?S)) (length ?S) (map (\<lambda>r. map (\<lambda>v. v ! r) ?S) [0..<length (hd ?S)])"
  let ?Y = "Matrix (length (hd ?L)) (length ?L) (map (\<lambda>r. map (\<lambda>v. v ! r) ?L) [0..<length (hd ?L)])"
  let ?ps = "GetParameters api k"
  let ?tag = "ToString api k"
  let ?line = "?tag @ CHR '' '' # show_unsigned lib (length ?ps) @ CHR '' '' #
              concat (map (\<lambda>p. show_scalar lib p @ '' '') ?ps) @
              show_scalar lib (m_Sigma gp) @ CHR '' '' # show_unsigned lib (m_InputDimension gp) @
              CHR '' '' # show_unsigned lib (m_OutputDimension gp) @ CHR '' '' #
              show_bool lib (debug gp)"
  let ?fs' = "fs(prefix @ ''-RegressionVectors.txt'' \<mapsto> RegularFile (matrix_text lib ?R),
                 prefix @ ''-CoreMatrix.txt'' \<mapsto> RegularFile (matrix_text lib ?C),
                 prefix @ ''-SampleVectors.txt'' \<mapsto> RegularFile (matrix_text lib ?X),
                 prefix @ ''-LabelVectors.txt'' \<mapsto> RegularFile (matrix_text lib ?Y),
                 prefix @ ''-ParameterFile.txt'' \<mapsto> RegularFile ?line)"
  let ?g4 = "gp0\<lparr> m_RegressionVectors := ?R, m_CoreMatrix := ?C,
                  m_SampleVectors := ?S, m_LabelVectors := ?L \<rparr>"
  let ?g5 = "?g4\<lparr> m_Sigma := m_Sigma gp, m_InputDimension := m_InputDimension gp,
                  m_OutputDimension := m_OutputDimension gp, debug := debug gp \<rparr>"
  let ?gp' = "?g5\<lparr> m_Kernel := Some k', m_Initialized := True \<rparr>"
  have cX: "columns_matrix ?S = Inr ?X" using samples by (rule columns_matrix_ok)
  have cY: "columns_matrix ?L = Inr ?Y" using labels by (rule columns_matrix_ok)
  have line: "parameter_line lib api k gp = ?line"
    by (simp add: parameter_line_def Let_def)
  have save: "Save lib api prefix (gp, fs) = (Inr (), gp, ?fs')"
    by (simp add: Save_def trained cX cY kern WriteMatrix_def line)
  have files:
    "regular_file ?fs' (prefix @ ''-RegressionVectors.txt'') = Some (matrix_text lib ?R)"
    "regular_file ?fs' (prefix @ ''-CoreMatrix.txt'') = Some (matrix_text lib ?C)"
    "regular_file ?fs' (prefix @ ''-SampleVectors.txt'') = Some (matrix_text lib ?X)"
    "regular_file ?fs' (prefix @ ''-LabelVectors.txt'') = Some (matrix_text lib ?Y)"
    "regular_file ?fs' (prefix @ ''-ParameterFile.txt'') = Some ?line"
    by (simp_all add: regular_file_def)
  have reread: "ReadMatrix lib (matrix_text lib ?R) = ?R" "ReadMatrix lib (matrix_text lib ?C) = ?C"
    "ReadMatrix lib (matrix_text lib ?X) = ?X" "ReadMatrix lib (matrix_text lib ?Y) = ?Y"
    using matrices cX cY by (simp_all add: ReadMatrix_def)
  have colsX: "map (col ?X) [0..<ncols ?X] = ?S"
    using columns_back [OF samples(2)] by simp
  have colsY: "map (col ?Y) [0..<ncols ?Y] = ?L"
    using columns_back [OF labels(2)] by simp
  note rl = Load_kernel_reloads [OF reload]
  have parse: "read_parameter_file lib ?g4 ?line = (Inr (?tag, ?ps), ?g5)"
    using scalars unsigneds flag
    by (intro read_parameter_file_written rl(2)) simp_all
  have load: "Load lib api (RegisterKernels api Map.empty) prefix ?fs' gp0 = (Inr (), ?gp')"
    unfolding Load_def
    by (simp only: files option.case Let_def reread colsX colsY parse prod.case sum.case rl(1))
  have nd: "\<not> kernel_differs api k k'" using reload by (simp add: kernel_reloads_def)
  have eq: "operator_eq api gp ?gp' = Inr True"
    using nd trained
    by (simp add: operator_eq_def diff_norm_positive_self any_vector_differs_self kern)
  from save load eq show ?thesis by blast
qed


lemma show_nat_small:
  "show_nat 0 = ''0''" "show_nat (Suc 0) = ''1''" "show_nat 2 = ''2''" "show_nat 3 = ''3''"
  "show_nat 4 = ''4''" "show_nat 7 = ''7''"
  by (simp_all add: show_nat.simps digit_char_def)

lemma demo_reads_back:
  "reads_back show_nat demo_conv_unsigned (Suc 0)"
  "reads_back show_nat demo_conv_unsigned 2"
  "reads_back (\<lambda>x. show_nat (nat \<lfloor>x\<rfloor>)) demo_conv_scalar 0"
  "reads_back (\<lambda>x. show_nat (nat \<lfloor>x\<rfloor>)) demo_conv_scalar 2"
  "reads_back (\<lambda>x. show_nat (nat \<lfloor>x\<rfloor>)) demo_conv_scalar 7"
  "reads_back (\<lambda>b. if b then ''1'' else ''0'') demo_conv_bool False"
  by (simp_all add: reads_back_def token_def isspace_def show_nat_small demo_conv_unsigned_def
        demo_conv_scalar_def demo_conv_bool_def isdigit_def read_nat_def digit_val_def)

lemma demo_reads_back_two: "reads_back show_nat demo_conv_unsigned (Suc (Suc 0))"
  using demo_reads_back(2) by (simp add: numeral_2_eq_2)

lemma demo_saved_fields [simp]:
  "m_Kernel demo_saved = Some (DemoKernel Gaussian [2])"
  "m_Sigma demo_saved = 0"
  "m_SampleVectors demo_saved = [[1, 0], [0, 1]]"
  "m_LabelVectors demo_saved = [[3], [4]]"
  "m_RegressionVectors demo_saved = Matrix 2 1 [[3], [4]]"
  "m_CoreMatrix demo_saved = Matrix 2 2 [[1, 0], [0, 1]]"
  "m_Initialized demo_saved = True"
  "m_InputDimension demo_saved = 2"
  "m_OutputDimension demo_saved = 1"
  "debug demo_saved = False"
  by (simp_all add: demo_saved_def)

lemma demo_saved_sum_fields [simp]:
  "m_Kernel demo_saved_sum = Some (DemoKernel Sum [2, 7])"
  "m_Sigma demo_saved_sum = 0"
  "m_SampleVectors demo_saved_sum = [[1, 0], [0, 1]]"
  "m_LabelVectors demo_saved_sum = [[3], [4]]"
  "m_RegressionVectors demo_saved_sum = Matrix 2 1 [[3], [4]]"
  "m_CoreMatrix demo_saved_sum = Matrix 2 2 [[1, 0], [0, 1]]"
  "m_Initialized demo_saved_sum = True"
  "m_InputDimension demo_saved_sum = 2"
  "m_OutputDimension demo_saved_sum = 1"
  "debug demo_saved_sum = False"
  by (simp_all add: demo_saved_sum_def)

lemma demo_matrix_texts:
  "demo_text_matrix (demo_matrix_text (Matrix 2 (Suc 0) [[3], [4]])) = Matrix 2 (Suc 0) [[3], [4]]"
  "demo_text_matrix (demo_matrix_text (Matrix 2 2 [[1, 0], [0, 1]])) = Matrix 2 2 [[1, 0], [0, 1]]"
  "demo_text_matrix (demo_matrix_text (Matrix (Suc 0) 2 [[3, 4]])) = Matrix (Suc 0) 2 [[3, 4]]"
  by (simp_all add: demo_matrix_text_def demo_text_matrix_def show_nat_small read_nat_def
        digit_val_def upt_small)

lemma demo_columns:
  "columns_matrix [[1, 0], [0, 1]] = Inr (Matrix 2 2 [[1, 0], [0, 1]])"
  "columns_matrix [[3], [4]] = Inr (Matrix 1 2 [[3, 4]])"
  by (simp_all add: columns_matrix_def upt_small)

theorem Save_Load_roundtrip_witness:
  "fst (Save demo_lib demo_api ''gp'' (demo_saved, Map.empty)) = Inr ()
   \<and> fst (Load demo_lib demo_api (RegisterKernels demo_api Map.empty) ''gp''
          (snd (snd (Save demo_lib demo_api ''gp'' (demo_saved, Map.empty))))
          (GaussianProcess_new None)) = Inr ()
   \<and> operator_eq demo_api demo_saved
        (snd (Load demo_lib demo_api (RegisterKernels demo_api Map.empty) ''gp''
               (snd (snd (Save demo_lib demo_api ''gp'' (demo_saved, Map.empty))))
               (GaussianProcess_new None))) = Inr True
   \<and> operator_eq demo_api demo_saved_sum
        (snd (Load demo_lib demo_api (RegisterKernels demo_api Map.empty) ''gp''
               (snd (snd (Save demo_lib demo_api ''gp'' (demo_saved_sum, Map.empty))))
               (GaussianProcess_new None))) = Inr True"
proof -
  have m1: "\<forall>M. M = m_RegressionVectors demo_saved \<or> M = m_CoreMatrix demo_saved
        \<or> columns_matrix (m_SampleVectors demo_saved) = Inr M
        \<or> columns_matrix (m_LabelVectors demo_saved) = Inr M
        \<longrightarrow> text_matrix demo_lib (matrix_text demo_lib M) = M"
    by (auto simp: demo_columns demo_matrix_texts)
  have m2: "\<forall>M. M = m_RegressionVectors demo_saved_sum \<or> M = m_CoreMatrix demo_saved_sum
        \<or> columns_matrix (m_SampleVectors demo_saved_sum) = Inr M
        \<or> columns_matrix (m_LabelVectors demo_saved_sum) = Inr M
        \<longrightarrow> text_matrix demo_lib (matrix_text demo_lib M) = M"
    by (auto simp: demo_columns demo_matrix_texts)
  have k1: "kernel_reloads demo_api (DemoKernel Gaussian [2]) (DemoKernel Gaussian [2])"
    by (simp add: kernel_reloads_def demo_tag_def)
  have k2: "kernel_reloads demo_api (DemoKernel Sum [2, 7]) (DemoKernel Sum [2, 7])"
    by (simp add: kernel_reloads_def demo_tag_def)
  from Save_Load_roundtrip [where gp = demo_saved and k = "DemoKernel Gaussian [2]"
      and k' = "DemoKernel Gaussian [2]" and api = demo_api and lib = demo_lib
      and prefix = "''gp''" and fs = Map.empty and ?gp0.0 = "GaussianProcess_new None",
      OF _ _ k1 _ _ _ _ m1]
  obtain fs1 g1 where a: "Save demo_lib demo_api ''gp'' (demo_saved, Map.empty) = (Inr (), demo_saved, fs1)"
    "Load demo_lib demo_api (RegisterKernels demo_api Map.empty) ''gp'' fs1 (GaussianProcess_new None)
       = (Inr (), g1)"
    "operator_eq demo_api demo_saved g1 = Inr True"
    by (auto simp: demo_reads_back)
  from Save_Load_roundtrip [where gp = demo_saved_sum and k = "DemoKernel Sum [2, 7]"
      and k' = "DemoKernel Sum [2, 7]" and api = demo_api and lib = demo_lib
      and prefix = "''gp''" and fs = Map.empty and ?gp0.0 = "GaussianProcess_new None",
      OF _ _ k2 _ _ _ _ m2]
  obtain fs2 g2 where b: "Save demo_lib demo_api ''gp'' (demo_saved_sum, Map.empty) = (Inr (), demo_saved_sum, fs2)"
    "Load demo_lib demo_api (RegisterKernels demo_api Map.empty) ''gp'' fs2 (GaussianProcess_new None)
       = (Inr (), g2)"
    "operator_eq demo_api demo_saved_sum g2 = Inr True"
    by (auto simp: demo_reads_back demo_reads_back_two)
  from a b show ?thesis by simp
qed

end
